theory Spec2Isabelle
  imports Main
begin

section \<open>Machine integers and durations\<close>

text \<open>
  Go's \<open>int\<close> (on a 64-bit platform) and \<open>time.Duration\<close> (an \<open>int64\<close> count of
  nanoseconds) are modelled as \<open>int\<close> with the two's-complement wrap-around written
  out: every arithmetic result of the source is passed through \<open>wrap64\<close>.
\<close>

definition wrap64 :: "int \<Rightarrow> int" where
  "wrap64 x = (x + 9223372036854775808) mod 18446744073709551616 - 9223372036854775808"

text \<open>Go's integer division truncates towards zero; the divisor of the source is never 0.\<close>

definition quo :: "int \<Rightarrow> int \<Rightarrow> int" where
  "quo a b = sgn a * sgn b * (\<bar>a\<bar> div \<bar>b\<bar>)"

definition Microsecond :: int where
  "Microsecond = 1000"

definition Millisecond :: int where
  "Millisecond = 1000000"

definition Second :: int where
  "Second = 1000000000"

text \<open>
  What can go wrong in the backoff strategies: \<open>rand.Intn\<close> panics on an argument
  that is not positive, and the conversion of a floating-point value that the integer
  type cannot represent yields an implementation-dependent value.
\<close>

datatype fault = InvalidIntnArgument | ConversionOutOfRange

text \<open>
  \<open>rand.Intn(n)\<close>: the generator (re-seeded from the clock by \<open>jitter\<close>) is an
  external source, so the raw draw \<open>r\<close> is a parameter; the value returned lies in
  \<open>[0, n)\<close>, and every value of that interval is returned for some draw.
\<close>

definition Intn :: "int \<Rightarrow> int \<Rightarrow> fault + int" where
  "Intn r n = (if n \<le> 0 then Inl InvalidIntnArgument else Inr (r mod n))"

text \<open>
  The integer conversion of \<open>math.Pow(2, float64(i))\<close>. For \<open>0 \<le> i \<le> 62\<close> the power
  is an exactly representable float that fits the integer type; for a negative \<open>i\<close> it
  lies in \<open>[0, 1)\<close> and truncates to 0; from 63 on it is outside the range of a signed
  64-bit integer.
\<close>

definition pow2 :: "int \<Rightarrow> fault + int" where
  "pow2 i = (if i < 0 then Inr 0 else if i \<le> 62 then Inr (2 ^ nat i) else Inl ConversionOutOfRange)"

section \<open>Backoff strategies\<close>

definition DefaultBackoff :: "int \<Rightarrow> int" where
  "DefaultBackoff i = wrap64 (1 * Second)"

definition ExponentialBackoff :: "int \<Rightarrow> fault + int" where
  "ExponentialBackoff i =
     (case pow2 i of Inl f \<Rightarrow> Inl f | Inr d \<Rightarrow> Inr (wrap64 (d * Second)))"

definition LinearBackoff :: "int \<Rightarrow> int" where
  "LinearBackoff i = wrap64 (i * Second)"

text \<open>
  \<open>jitter\<close>: \<open>r1\<close> and \<open>r2\<close> are the raw draws behind the two calls of
  \<open>rand.Intn\<close>.
\<close>

definition jitter :: "int \<Rightarrow> int \<Rightarrow> int \<Rightarrow> fault + int" where
  "jitter r1 r2 i =
     (let ms = wrap64 (i * 1000);
          maxJitter = quo ms 3
      in case Intn r1 (wrap64 (maxJitter + 1)) of
           Inl f \<Rightarrow> Inl f
         | Inr j \<Rightarrow>
             (case Intn r2 2 of
                Inl f \<Rightarrow> Inl f
              | Inr coin \<Rightarrow>
                  (let ms1 = (if coin = 1 then wrap64 (ms + j) else wrap64 (ms - j));
                       ms2 = (if ms1 \<le> 0 then 1 else ms1)
                   in Inr (wrap64 (ms2 * Millisecond)))))"

definition ExponentialJitterBackoff :: "int \<Rightarrow> int \<Rightarrow> int \<Rightarrow> fault + int" where
  "ExponentialJitterBackoff r1 r2 i =
     (case pow2 i of Inl f \<Rightarrow> Inl f | Inr b \<Rightarrow> jitter r1 r2 b)"

definition LinearJitterBackoff :: "int \<Rightarrow> int \<Rightarrow> int \<Rightarrow> fault + int" where
  "LinearJitterBackoff r1 r2 i = jitter r1 r2 i"

section \<open>Data model\<close>

text \<open>An \<open>error\<close> value is modelled by its message; \<open>None\<close> is Go's \<open>nil\<close>.\<close>

type_synonym error = string

text \<open>Of an \<open>http.Response\<close> the orchestrator reads the status line and the status code.\<close>

record response =
  Status :: string
  StatusCode :: int

definition empty_response :: response where
  "empty_response = \<lparr>Status = [], StatusCode = 0\<rparr>"

text \<open>
  An \<open>io.Reader\<close>, seen through \<open>ioutil.ReadAll\<close>: the bytes it delivers and the
  error it ends with, if any.
\<close>

record reader =
  content :: string
  failure :: "error option"

definition ReadAll :: "reader \<Rightarrow> string \<times> error option" where
  "ReadAll r = (content r, failure r)"

record request =
  req_Method :: string
  req_URL :: string
  req_Body :: "reader option"

record ErrEntry =
  Time :: int
  Method :: string
  URL :: string
  Verb :: string
  Request :: int
  Retry :: int
  Err :: "error option"

text \<open>
  The \<open>Client\<close>. \<open>Time\<close> of an entry is kept as Unix seconds, the only view
  \<open>LogString\<close> takes of it. The fields of the embedded \<open>http.Client\<close>, the external
  \<open>Logger\<close> and the \<open>LogWriter\<close> are left out: they are handed to the transport or
  written to, and never read back by the code modelled here. \<open>Backoff\<close> is a strategy
  that is not \<open>nil\<close>.
\<close>

record Client =
  Concurrency :: int
  MaxRetries :: int
  Backoff :: "int \<Rightarrow> int"
  KeepLog :: bool
  LogRetries :: bool
  Verbosity :: int
  Threshold :: string
  LogTimeFormat :: string
  SuccessReqNum :: int
  SuccessRetryNum :: int
  ErrLog :: "ErrEntry list"

record result =
  resp :: "response option"
  err :: "error option"
  req :: int
  retry :: int

text \<open>
  \<open>params\<close> is built by the five entry points only, so its \<open>method\<close> string is one of
  five: a datatype, with the string that the log shows.
\<close>

datatype route = CallDo | CallGet | CallHead | CallPost | CallPostForm

fun route_name :: "route \<Rightarrow> string" where
  "route_name CallDo = ''Do''"
| "route_name CallGet = ''Get''"
| "route_name CallHead = ''Head''"
| "route_name CallPost = ''Post''"
| "route_name CallPostForm = ''PostForm''"

record params =
  meth :: route
  verb :: string
  preq :: "request option"
  url :: string
  bodyType :: string
  body :: "reader option"
  data :: "(string \<times> string list) list"

text \<open>
  The transport, the clock and the scheduler are the outside world. Each capability of
  the \<open>http.Client\<close> answers with the pair \<open>(resp, err)\<close> of the Go call; its last
  argument \<open>(n, i)\<close> says which attempt is asking (worker \<open>n\<close>, retry \<open>i\<close>), so that
  the same request can be answered differently each time. \<open>now\<close> is \<open>time.Now()\<close>
  at the failure of that attempt, in Unix seconds. \<open>schedule\<close> is the order in which
  the workers, named by their indices, get their turns to append to the log they share,
  up to the moment the orchestrator has received a result.
\<close>

type_synonym attempt = "int \<times> int"

type_synonym reply = "response option \<times> error option"

record world =
  http_Do :: "request option \<Rightarrow> string \<Rightarrow> attempt \<Rightarrow> reply"
  http_Get :: "string \<Rightarrow> attempt \<Rightarrow> reply"
  http_Head :: "string \<Rightarrow> attempt \<Rightarrow> reply"
  http_Post :: "string \<Rightarrow> string \<Rightarrow> string option \<Rightarrow> attempt \<Rightarrow> reply"
  http_PostForm :: "string \<Rightarrow> (string \<times> string list) list \<Rightarrow> attempt \<Rightarrow> reply"
  now :: "attempt \<Rightarrow> int"
  schedule :: "nat list"

section \<open>The orchestrator\<close>

text \<open>\<open>Client.log\<close>: the entry is kept in memory when \<open>KeepLog\<close> is set.\<close>

definition log_entry :: "Client \<Rightarrow> ErrEntry \<Rightarrow> Client" where
  "log_entry c e = (if KeepLog c then c\<lparr>ErrLog := ErrLog c @ [e]\<rparr> else c)"

text \<open>
  The \<open>switch\<close> that routes the call. \<open>orb\<close> and \<open>ob\<close> are the saved bytes
  \<open>originalRequestBody\<close> and \<open>originalBody\<close>, from which the body is rebuilt before
  every attempt.
\<close>

fun send :: "world \<Rightarrow> params \<Rightarrow> string \<Rightarrow> string \<Rightarrow> attempt \<Rightarrow> reply" where
  "send w p orb ob a =
     (case meth p of
        CallDo \<Rightarrow> http_Do w (preq p) orb a
      | CallGet \<Rightarrow> http_Get w (url p) a
      | CallHead \<Rightarrow> http_Head w (url p) a
      | CallPost \<Rightarrow> http_Post w (url p) (bodyType p) (if body p = None then None else Some ob) a
      | CallPostForm \<Rightarrow> http_PostForm w (url p) (data p) a)"

declare send.simps [simp del]

text \<open>
  How a worker ends: it sends a \<open>result\<close> on the result channel; or it waits for
  ever on \<open>time.Tick\<close>, which gives a \<open>nil\<close> channel for a duration that is not
  positive; or it panics on the status code of a \<open>nil\<close> response.
\<close>

datatype worker_end = Sent result | Stuck | Panicked

text \<open>
  The retry loop of one worker, from retry \<open>i\<close> on. \<open>rsp\<close> and \<open>er\<close> are the
  loop's variables \<open>resp\<close> and \<open>err\<close>; \<open>k\<close> counts the calls of the transport. The
  result is the client as this worker alone makes it, the count, and how the worker ends.
  The workers of a call share the client: each reads of it \<open>MaxRetries\<close>, \<open>Backoff\<close>
  and \<open>KeepLog\<close>, which no worker writes, and appends to its \<open>ErrLog\<close>. So what a
  worker does is the same whatever the others do, and the entries it appends are the ones
  by which the log grows here; \<open>pester\<close> puts the entries of all workers together. The
  test of \<open>finishCh\<close> is left out: that channel is closed only after a result has been
  received, so the worker whose result is received has never found it closed.
\<close>

function worker_loop ::
  "Client \<Rightarrow> world \<Rightarrow> params \<Rightarrow> string \<Rightarrow> string \<Rightarrow> int \<Rightarrow> int \<Rightarrow>
     response option \<Rightarrow> error option \<Rightarrow> nat \<Rightarrow> Client \<times> nat \<times> worker_end" where
  "worker_loop c w p orb ob n i rsp er k =
     (if i < MaxRetries c then
        (let (rsp1, er1) = send w p orb ob (n, i) in
         if er1 = None \<and> rsp1 = None then (c, Suc k, Panicked)
         else if er1 = None \<and> StatusCode (the rsp1) < 400 then
           (c, Suc k, Sent \<lparr>resp = rsp1, err = er1, req = n, retry = i\<rparr>)
         else
           (let er2 = (if er1 = None then Some (Status (the rsp1)) else er1);
                c1 = log_entry c \<lparr>Time = now w (n, i), Method = route_name (meth p),
                       URL = url p, Verb = verb p, Request = n, Retry = i, Err = er2\<rparr>
            in if wrap64 (Backoff c i + 1 * Microsecond) \<le> 0 then (c1, Suc k, Stuck)
               else worker_loop c1 w p orb ob n (i + 1) rsp1 er2 (Suc k)))
      else (c, k, Sent \<lparr>resp = rsp, err = er, req = 0, retry = 0\<rparr>))"
  by pat_completeness auto
termination
  by (relation "measure (\<lambda>(c, w, p, orb, ob, n, i, rsp, er, k). nat (MaxRetries c - i))")
     (auto simp: log_entry_def)

declare worker_loop.simps [simp del]

definition worker :: "Client \<Rightarrow> world \<Rightarrow> params \<Rightarrow> string \<Rightarrow> string \<Rightarrow> int \<Rightarrow> Client \<times> nat \<times> worker_end" where
  "worker c w p orb ob n = worker_loop c w p orb ob n 0 (Some empty_response) None 0"

text \<open>
  What a call gives back: the client as it is when the call returns, the returned pair,
  and the number of calls of the transport made by the worker whose result is returned.
\<close>

record outcome =
  client :: Client
  ret_resp :: "response option"
  ret_err :: "error option"
  calls :: nat

definition concurrency :: "Client \<Rightarrow> params \<Rightarrow> int" where
  "concurrency c p = (if verb p \<noteq> ''GET'' then 1 else Concurrency c)"

definition read_request_body :: "params \<Rightarrow> error + string" where
  "read_request_body p =
     (case preq p of
        None \<Rightarrow> Inr []
      | Some r \<Rightarrow>
          (case req_Body r of
             None \<Rightarrow> Inr []
           | Some b \<Rightarrow>
               (case ReadAll b of
                  (bs, Some e) \<Rightarrow> Inl ''error reading request body''
                | (bs, None) \<Rightarrow> Inr bs)))"

definition read_body :: "params \<Rightarrow> error + string" where
  "read_body p =
     (case body p of
        None \<Rightarrow> Inr []
      | Some b \<Rightarrow>
          (case ReadAll b of
             (bs, Some e) \<Rightarrow> Inl ''error reading body''
           | (bs, None) \<Rightarrow> Inr bs))"

text \<open>The entries by which the log of \<open>c'\<close> is longer than that of \<open>c\<close>.\<close>

definition appended :: "Client \<Rightarrow> Client \<Rightarrow> ErrEntry list" where
  "appended c c' = drop (length (ErrLog c)) (ErrLog c')"

text \<open>
  The loop that starts the workers, \<open>0\<close> to \<open>concurrency - 1\<close>. Of each worker: the
  entries it appends to the log of the client, the calls of the transport it makes, and
  how it ends.
\<close>

definition spawn ::
  "Client \<Rightarrow> world \<Rightarrow> params \<Rightarrow> string \<Rightarrow> string \<Rightarrow> (ErrEntry list \<times> nat \<times> worker_end) list" where
  "spawn c w p orb ob =
     map (\<lambda>n. case worker c w p orb ob n of (c', k, e) \<Rightarrow> (appended c c', k, e))
       [0..concurrency c p - 1]"

text \<open>
  The log all workers append to, when the result of worker \<open>n\<close> is received. \<open>qs\<close>
  holds, for each worker, the entries it has still to append. Each turn of the schedule
  lets one worker append its next entry; a worker with nothing left passes. Worker \<open>n\<close>
  has appended all its entries before it sends, so what it has left after the schedule
  comes last. The other workers have appended some first part of theirs.
\<close>

fun interleave :: "nat list \<Rightarrow> nat \<Rightarrow> ErrEntry list list \<Rightarrow> ErrEntry list" where
  "interleave [] n qs = (if n < length qs then qs ! n else [])"
| "interleave (m # ms) n qs =
     (if m < length qs then
        (case qs ! m of
           [] \<Rightarrow> interleave ms n qs
         | e # es \<Rightarrow> e # interleave ms n (qs[m := es]))
      else interleave ms n qs)"

text \<open>
  The receiving end of the result channel, when the result received first is that of
  worker \<open>n\<close>: it sets \<open>SuccessReqNum\<close> and \<open>SuccessRetryNum\<close> and is returned. The
  client is the one all workers share, with the entries they have appended so far. A
  worker that is stuck or has panicked sends nothing (and a panic ends the program).
\<close>

definition receive ::
  "Client \<Rightarrow> world \<Rightarrow> (ErrEntry list \<times> nat \<times> worker_end) list \<Rightarrow> int \<Rightarrow> outcome list" where
  "receive c w runs n =
     (case runs ! nat n of
        (es, k, Sent r) \<Rightarrow>
          [\<lparr>client = c\<lparr>ErrLog := ErrLog c @ interleave (schedule w) (nat n) (map fst runs),
                         SuccessReqNum := req r, SuccessRetryNum := retry r\<rparr>,
            ret_resp = resp r, ret_err = err r, calls = k\<rparr>]
      | (es, k, Stuck) \<Rightarrow> []
      | (es, k, Panicked) \<Rightarrow> [])"

text \<open>
  \<open>pester\<close>. Which worker's result is received first is decided by the scheduler, so
  the value is the list of the outcomes the call can have: one for each worker that
  sends a result, in the order of the workers' indices. The empty list is the call that
  never returns, there being no result to receive.
\<close>

definition pester :: "Client \<Rightarrow> world \<Rightarrow> params \<Rightarrow> outcome list" where
  "pester c w p =
     (case read_request_body p of
        Inl e \<Rightarrow> [\<lparr>client = c, ret_resp = Some empty_response, ret_err = Some e, calls = 0\<rparr>]
      | Inr orb \<Rightarrow>
          (case read_body p of
             Inl e \<Rightarrow> [\<lparr>client = c, ret_resp = Some empty_response, ret_err = Some e, calls = 0\<rparr>]
           | Inr ob \<Rightarrow>
               concat (map (receive c w (spawn c w p orb ob)) [0..concurrency c p - 1])))"

section \<open>The log as a string\<close>

text \<open>The verb \<open>%d\<close> of \<open>fmt\<close>: decimal digits, with a minus sign below zero.\<close>

function digits :: "int \<Rightarrow> string" where
  "digits n =
     (if n < 10 then [''0123456789'' ! nat n]
      else digits (n div 10) @ [''0123456789'' ! nat (n mod 10)])"
  by pat_completeness auto
termination
  by (relation "measure nat") auto

declare digits.simps [simp del]

definition decimal :: "int \<Rightarrow> string" where
  "decimal i = (if i < 0 then CHR ''-'' # digits (- i) else digits i)"

text \<open>The verb \<open>%s\<close> on an \<open>error\<close>: its message, and \<open>%!s(<nil>)\<close> for \<open>nil\<close>.\<close>

definition error_string :: "error option \<Rightarrow> string" where
  "error_string e = (case e of None \<Rightarrow> ''%!s(<nil>)'' | Some m \<Rightarrow> m)"

definition newline :: char where
  "newline = CHR 0x0A"

definition newlines :: "string \<Rightarrow> nat" where
  "newlines s = length (filter (\<lambda>x. x = newline) s)"

text \<open>
  The line \<open>fmt.Sprintf\<close> makes of one entry, for the format
  \<open>%d %s [%s] to %s request-%d retry-%d error: %s\n\<close>.
\<close>

definition Sprintf_entry :: "ErrEntry \<Rightarrow> string" where
  "Sprintf_entry e =
     decimal (Time e) @ '' '' @ Method e @ '' ['' @ Verb e @ ''] to '' @ URL e @
     '' request-'' @ decimal (Request e) @ '' retry-'' @ decimal (Retry e) @
     '' error: '' @ error_string (Err e) @ [newline]"

definition LogString :: "Client \<Rightarrow> string" where
  "LogString c = foldl (\<lambda>res e. res @ Sprintf_entry e) [] (ErrLog c)"

section \<open>Entry points\<close>

definition LogStringTimeFormat :: string where
  "LogStringTimeFormat = ''15:04:05.999999''"

text \<open>The initial value of the package variable \<open>DefaultClient\<close>.\<close>

definition DefaultClient :: Client where
  "DefaultClient =
     \<lparr>Concurrency = 1, MaxRetries = 3, Backoff = DefaultBackoff, KeepLog = False,
      LogRetries = False, Verbosity = 0, Threshold = [], LogTimeFormat = [],
      SuccessReqNum = 0, SuccessRetryNum = 0, ErrLog = []\<rparr>"

text \<open>
  \<open>New\<close> reads the package variable \<open>DefaultClient\<close>, which any caller may have
  changed or used: \<open>dc\<close> is its value when \<open>New\<close> runs.
\<close>

definition New :: "Client \<Rightarrow> Client" where
  "New dc =
     \<lparr>Concurrency = Concurrency dc, MaxRetries = MaxRetries dc, Backoff = Backoff dc,
      KeepLog = False, LogRetries = True, Verbosity = 2, Threshold = ''info'',
      LogTimeFormat = LogStringTimeFormat, SuccessReqNum = 0, SuccessRetryNum = 0,
      ErrLog = ErrLog dc\<rparr>"

definition Do_params :: "request \<Rightarrow> params" where
  "Do_params r =
     \<lparr>meth = CallDo, verb = req_Method r, preq = Some r, url = req_URL r, bodyType = [],
      body = None, data = []\<rparr>"

definition Get_params :: "string \<Rightarrow> params" where
  "Get_params u =
     \<lparr>meth = CallGet, verb = ''GET'', preq = None, url = u, bodyType = [], body = None,
      data = []\<rparr>"

definition Head_params :: "string \<Rightarrow> params" where
  "Head_params u =
     \<lparr>meth = CallHead, verb = ''HEAD'', preq = None, url = u, bodyType = [], body = None,
      data = []\<rparr>"

definition Post_params :: "string \<Rightarrow> string \<Rightarrow> reader option \<Rightarrow> params" where
  "Post_params u bt b =
     \<lparr>meth = CallPost, verb = ''POST'', preq = None, url = u, bodyType = bt, body = b,
      data = []\<rparr>"

definition PostForm_params :: "string \<Rightarrow> (string \<times> string list) list \<Rightarrow> params" where
  "PostForm_params u d =
     \<lparr>meth = CallPostForm, verb = ''POST'', preq = None, url = u, bodyType = [], body = None,
      data = d\<rparr>"

definition Client_Do :: "Client \<Rightarrow> world \<Rightarrow> request \<Rightarrow> outcome list" where
  "Client_Do c w r = pester c w (Do_params r)"

definition Client_Get :: "Client \<Rightarrow> world \<Rightarrow> string \<Rightarrow> outcome list" where
  "Client_Get c w u = pester c w (Get_params u)"

definition Client_Head :: "Client \<Rightarrow> world \<Rightarrow> string \<Rightarrow> outcome list" where
  "Client_Head c w u = pester c w (Head_params u)"

definition Client_Post :: "Client \<Rightarrow> world \<Rightarrow> string \<Rightarrow> string \<Rightarrow> reader option \<Rightarrow> outcome list" where
  "Client_Post c w u bt b = pester c w (Post_params u bt b)"

definition Client_PostForm ::
  "Client \<Rightarrow> world \<Rightarrow> string \<Rightarrow> (string \<times> string list) list \<Rightarrow> outcome list" where
  "Client_PostForm c w u d = pester c w (PostForm_params u d)"

text \<open>The self-constructing variants of the package.\<close>

definition Do :: "Client \<Rightarrow> world \<Rightarrow> request \<Rightarrow> outcome list" where
  "Do dc w r = Client_Do (New dc) w r"

definition Get :: "Client \<Rightarrow> world \<Rightarrow> string \<Rightarrow> outcome list" where
  "Get dc w u = Client_Get (New dc) w u"

definition Head :: "Client \<Rightarrow> world \<Rightarrow> string \<Rightarrow> outcome list" where
  "Head dc w u = Client_Head (New dc) w u"

definition Post :: "Client \<Rightarrow> world \<Rightarrow> string \<Rightarrow> string \<Rightarrow> reader option \<Rightarrow> outcome list" where
  "Post dc w u bt b = Client_Post (New dc) w u bt b"

definition PostForm ::
  "Client \<Rightarrow> world \<Rightarrow> string \<Rightarrow> (string \<times> string list) list \<Rightarrow> outcome list" where
  "PostForm dc w u d = Client_PostForm (New dc) w u d"

section \<open>Attempts that succeed and attempts that fail\<close>

text \<open>
  The words in which the properties of a worker are stated. An attempt succeeds when
  the transport gives no error and a response with a status code below 400. It fails
  when the transport gives an error, or gives a response with a status code of 400 or
  more; \<open>error_of\<close> is then the error the worker goes on with: the transport's error,
  or one made of the status line.
\<close>

fun succeeded :: "reply \<Rightarrow> bool" where
  "succeeded (Some r, None) = (StatusCode r < 400)"
| "succeeded (None, None) = False"
| "succeeded (ro, Some e) = False"

fun failed :: "reply \<Rightarrow> bool" where
  "failed (Some r, None) = (400 \<le> StatusCode r)"
| "failed (None, None) = False"
| "failed (ro, Some e) = True"

fun error_of :: "reply \<Rightarrow> error option" where
  "error_of (Some r, None) = Some (Status r)"
| "error_of (None, None) = None"
| "error_of (ro, Some e) = Some e"

text \<open>The entry a worker hands to \<open>Client.log\<close> when its attempt \<open>(n, i)\<close> fails.\<close>

definition failure_entry :: "world \<Rightarrow> params \<Rightarrow> string \<Rightarrow> string \<Rightarrow> int \<Rightarrow> int \<Rightarrow> ErrEntry" where
  "failure_entry w p orb ob n i =
     \<lparr>Time = now w (n, i), Method = route_name (meth p), URL = url p, Verb = verb p,
      Request = n, Retry = i, Err = error_of (send w p orb ob (n, i))\<rparr>"

section \<open>A world for the examples\<close>

text \<open>
  The transport that gives the same answer to every call, under a clock that stands at
  1700000000 seconds plus the retry index, and a scheduler under which no worker but the
  one whose result is received has appended to the log by then.
\<close>

definition constant_world :: "reply \<Rightarrow> world" where
  "constant_world a =
     \<lparr>http_Do = (\<lambda>r b t. a), http_Get = (\<lambda>u t. a), http_Head = (\<lambda>u t. a),
      http_Post = (\<lambda>u bt b t. a), http_PostForm = (\<lambda>u d t. a),
      now = (\<lambda>t. 1700000000 + snd t), schedule = []\<rparr>"

definition server_error :: reply where
  "server_error = (Some \<lparr>Status = ''500 Internal Server Error'', StatusCode = 500\<rparr>, None)"

text \<open>The same, with the workers taking turns at the log: 0, 1, 2, 0, 1.\<close>

definition turns_world :: "reply \<Rightarrow> world" where
  "turns_world a = (constant_world a)\<lparr>schedule := [0, 1, 2, 0, 1]\<rparr>"

text \<open>The answer of the transport to a URL it cannot parse.\<close>

definition invalid_url :: reply where
  "invalid_url = (None, Some ''net/url: invalid control character in URL'')"

text \<open>A URL with a newline in it.\<close>

definition broken_url :: string where
  "broken_url = ''http://example.com/a'' @ [newline] @ ''b''"

definition get_request :: request where
  "get_request = \<lparr>req_Method = ''GET'', req_URL = ''http://example.com'', req_Body = None\<rparr>"

text \<open>A client that starts three workers for a GET, each with two attempts, and keeps the log.\<close>

definition retrying_client :: Client where
  "retrying_client = DefaultClient\<lparr>Concurrency := 3, MaxRetries := 2, KeepLog := True\<rparr>"

text \<open>A body that breaks off while it is read.\<close>

definition broken_reader :: reader where
  "broken_reader = \<lparr>content = ''half'', failure = Some ''unexpected EOF''\<rparr>"

text \<open>
  The package variable \<open>DefaultClient\<close> after a caller has set its \<open>KeepLog\<close> and made
  a \<open>Get\<close> through it that failed three times.
\<close>

definition used_DefaultClient :: Client where
  "used_DefaultClient =
     client (hd (Client_Get (DefaultClient\<lparr>KeepLog := True\<rparr>) (constant_world server_error)
       ''http://example.com''))"

definition example_log :: "ErrEntry list" where
  "example_log =
     [\<lparr>Time = 1700000000, Method = ''Get'', URL = ''http://example.com'', Verb = ''GET'',
       Request = 0, Retry = 0, Err = Some ''500 Internal Server Error''\<rparr>,
      \<lparr>Time = - 5, Method = ''Post'', URL = ''http://example.org'', Verb = ''POST'',
       Request = 1, Retry = 12, Err = None\<rparr>]"

section \<open>Properties of the backoff strategies\<close>

lemma wrap64_id:
  "- 9223372036854775808 \<le> x \<Longrightarrow> x < 9223372036854775808 \<Longrightarrow> wrap64 x = x"
  by (simp add: wrap64_def)

lemma quo_nonneg: "0 \<le> a \<Longrightarrow> 0 < b \<Longrightarrow> quo a b = a div b"
  by (cases "a = 0") (simp_all add: quo_def)

lemma pow2_le: "n \<le> m \<Longrightarrow> (2::int) ^ n \<le> 2 ^ m"
  by (rule power_increasing) simp_all

text \<open>
  C8, as far as it holds. The fixed strategy gives one second at every index. The linear
  strategy gives \<open>i\<close> seconds, and the exponential one \<open>2 ^ i\<close> seconds, as long as
  that many nanoseconds fit the signed 64-bit \<open>time.Duration\<close>: up to index 9223372036
  for the linear strategy and up to index 33 for the exponential one.
\<close>

theorem backoff_seconds:
  "DefaultBackoff i = 1 * Second \<and>
   (0 \<le> i \<and> i \<le> 9223372036 \<longrightarrow> LinearBackoff i = i * Second) \<and>
   (0 \<le> i \<and> i \<le> 33 \<longrightarrow> ExponentialBackoff i = Inr (2 ^ nat i * Second))"
proof (intro conjI impI)
  show "DefaultBackoff i = 1 * Second"
    by (simp add: DefaultBackoff_def Second_def wrap64_def)
next
  assume "0 \<le> i \<and> i \<le> 9223372036"
  then show "LinearBackoff i = i * Second"
    by (simp add: LinearBackoff_def Second_def wrap64_id)
next
  assume a: "0 \<le> i \<and> i \<le> 33"
  then have "nat i \<le> (33::nat)"
    by arith
  then have "(2::int) ^ nat i \<le> 2 ^ 33"
    by (rule pow2_le)
  then have le: "(2::int) ^ nat i \<le> 8589934592"
    by simp
  have ge: "(0::int) \<le> 2 ^ nat i"
    by simp
  have "wrap64 (2 ^ nat i * 1000000000) = 2 ^ nat i * 1000000000"
    using le ge by (intro wrap64_id) linarith+
  with a show "ExponentialBackoff i = Inr (2 ^ nat i * Second)"
    by (simp add: ExponentialBackoff_def pow2_def Second_def)
qed

theorem backoff_seconds_witness:
  "(0::int) \<le> 5 \<and> (5::int) \<le> 33 \<and> DefaultBackoff 5 = 1000000000 \<and>
   LinearBackoff 5 = 5000000000 \<and> ExponentialBackoff 5 = Inr 32000000000"
  using backoff_seconds [of 5] by (simp add: Second_def)

text \<open>
  At index 34 the exponential strategy overflows: \<open>2 ^ 34\<close> seconds are more
  nanoseconds than a \<open>time.Duration\<close> holds, and the product wraps to a negative
  duration.
\<close>

theorem exponential_backoff_counterexample:
  "ExponentialBackoff 34 = Inr (- 1266874889709551616) \<and>
   ExponentialBackoff 34 \<noteq> Inr (2 ^ 34 * Second)"
  by (simp add: ExponentialBackoff_def pow2_def Second_def wrap64_def)

lemma jitter_range:
  assumes "0 \<le> b" and "b \<le> 6917529027"
  shows "\<exists>ms. jitter r1 r2 b = Inr (ms * Millisecond) \<and>
           max 1 (b * 1000 - b * 1000 div 3) \<le> ms \<and> ms \<le> max 1 (b * 1000 + b * 1000 div 3)"
proof -
  define B where "B = b * 1000"
  define j where "j = r1 mod (B div 3 + 1)"
  have B: "0 \<le> B" "B \<le> 6917529027000"
    using assms by (simp_all add: B_def)
  have d: "0 \<le> B div 3" "B div 3 \<le> 2305843009000"
    using B by (simp_all add: div_le_mono pos_imp_zdiv_nonneg_iff)
  have wB: "wrap64 (b * 1000) = B"
    using B by (simp add: B_def wrap64_id)
  have q: "quo B 3 = B div 3"
    using B by (simp add: quo_nonneg)
  have wq: "wrap64 (B div 3 + 1) = B div 3 + 1"
    using d by (intro wrap64_id) linarith+
  have "j < B div 3 + 1"
    unfolding j_def using d by (intro pos_mod_bound) linarith
  moreover have "0 \<le> j"
    unfolding j_def using d by (intro pos_mod_sign) linarith
  ultimately have j: "0 \<le> j" "j \<le> B div 3"
    by simp_all
  have I1: "Intn r1 (B div 3 + 1) = Inr j"
    using d by (simp add: Intn_def j_def)
  have I2: "Intn r2 2 = Inr (r2 mod 2)"
    by (simp add: Intn_def)
  define ms1 where "ms1 = (if r2 mod 2 = 1 then B + j else B - j)"
  have w1: "wrap64 (B + j) = B + j" "wrap64 (B - j) = B - j"
    using B d j by (intro wrap64_id; linarith)+
  define ms2 where "ms2 = (if ms1 \<le> 0 then 1 else ms1)"
  have r: "B - B div 3 \<le> ms1" "ms1 \<le> B + B div 3"
    using j by (simp_all add: ms1_def)
  have m2: "max 1 (B - B div 3) \<le> ms2" "ms2 \<le> max 1 (B + B div 3)"
    using r d unfolding ms2_def max_def by (simp_all split: if_splits; linarith)+
  have "1 \<le> ms2" "ms2 \<le> 9223372036000"
    using m2 B d by linarith+
  then have w2: "wrap64 (ms2 * Millisecond) = ms2 * Millisecond"
    unfolding Millisecond_def by (intro wrap64_id) linarith+
  have "jitter r1 r2 b = Inr (wrap64 (ms2 * Millisecond))"
    by (simp add: jitter_def wB q wq I1 I2 w1 ms1_def ms2_def Let_def)
  then have "jitter r1 r2 b = Inr (ms2 * Millisecond)"
    by (simp only: w2)
  with m2 show ?thesis
    unfolding B_def by blast
qed

text \<open>
  C7, as far as it holds. With base \<open>B\<close> milliseconds (\<open>i * 1000\<close> for the linear
  strategy, \<open>2 ^ i * 1000\<close> for the exponential one), and as long as \<open>B + B / 3\<close>
  milliseconds fit a \<open>time.Duration\<close> (index at most 6917529027, and at most 32 for the
  exponential strategy), the jittered strategies return \<open>ms\<close> milliseconds with
  \<open>max 1 (B - B / 3) \<le> ms \<le> max 1 (B + B / 3)\<close>, whatever the generator draws. So the
  duration is at least one millisecond; at index 0 of the linear strategy, where \<open>B = 0\<close>,
  it is exactly one millisecond.
\<close>

theorem jitter_backoff_range:
  "(0 \<le> i \<and> i \<le> 6917529027 \<longrightarrow>
      (\<exists>ms. LinearJitterBackoff r1 r2 i = Inr (ms * Millisecond) \<and>
         max 1 (i * 1000 - i * 1000 div 3) \<le> ms \<and>
         ms \<le> max 1 (i * 1000 + i * 1000 div 3))) \<and>
   (0 \<le> i \<and> i \<le> 32 \<longrightarrow>
      (\<exists>ms. ExponentialJitterBackoff r1 r2 i = Inr (ms * Millisecond) \<and>
         max 1 (2 ^ nat i * 1000 - 2 ^ nat i * 1000 div 3) \<le> ms \<and>
         ms \<le> max 1 (2 ^ nat i * 1000 + 2 ^ nat i * 1000 div 3))) \<and>
   LinearJitterBackoff r1 r2 0 = Inr (1 * Millisecond)"
proof (intro conjI impI)
  assume "0 \<le> i \<and> i \<le> 6917529027"
  then show "\<exists>ms. LinearJitterBackoff r1 r2 i = Inr (ms * Millisecond) \<and>
      max 1 (i * 1000 - i * 1000 div 3) \<le> ms \<and> ms \<le> max 1 (i * 1000 + i * 1000 div 3)"
    unfolding LinearJitterBackoff_def by (intro jitter_range) simp_all
next
  assume a: "0 \<le> i \<and> i \<le> 32"
  then have "nat i \<le> (32::nat)"
    by arith
  then have "(2::int) ^ nat i \<le> 2 ^ 32"
    by (rule pow2_le)
  then have "(0::int) \<le> 2 ^ nat i" and "(2::int) ^ nat i \<le> 6917529027"
    by simp_all
  then have "\<exists>ms. jitter r1 r2 (2 ^ nat i) = Inr (ms * Millisecond) \<and>
      max 1 (2 ^ nat i * 1000 - 2 ^ nat i * 1000 div 3) \<le> ms \<and>
      ms \<le> max 1 (2 ^ nat i * 1000 + 2 ^ nat i * 1000 div 3)"
    by (rule jitter_range)
  with a show "\<exists>ms. ExponentialJitterBackoff r1 r2 i = Inr (ms * Millisecond) \<and>
      max 1 (2 ^ nat i * 1000 - 2 ^ nat i * 1000 div 3) \<le> ms \<and>
      ms \<le> max 1 (2 ^ nat i * 1000 + 2 ^ nat i * 1000 div 3)"
    by (simp add: ExponentialJitterBackoff_def pow2_def)
next
  show "LinearJitterBackoff r1 r2 0 = Inr (1 * Millisecond)"
    by (simp add: LinearJitterBackoff_def jitter_def quo_def Intn_def wrap64_def Millisecond_def)
qed

theorem jitter_backoff_range_witness:
  "(0::int) \<le> 2 \<and> (2::int) \<le> 32 \<and>
   LinearJitterBackoff 300 1 2 = Inr (2300 * Millisecond) \<and>
   max 1 (2 * 1000 - 2 * 1000 div 3) \<le> (2300::int) \<and>
   (2300::int) \<le> max 1 (2 * 1000 + 2 * 1000 div 3) \<and>
   ExponentialJitterBackoff 300 0 2 = Inr (3700 * Millisecond) \<and>
   max 1 (2 ^ nat 2 * 1000 - 2 ^ nat 2 * 1000 div 3) \<le> (3700::int) \<and>
   (3700::int) \<le> max 1 (2 ^ nat 2 * 1000 + 2 ^ nat 2 * 1000 div 3)"
  using jitter_backoff_range [of 2 300 1]
  by (simp add: LinearJitterBackoff_def ExponentialJitterBackoff_def pow2_def jitter_def
      quo_def Intn_def wrap64_def Millisecond_def)

text \<open>
  At index 0 the linear jittered strategy has base \<open>B = 0\<close>: the result is clamped to
  one millisecond, which is above \<open>B + B / 3 = 0\<close>.
\<close>

theorem jitter_backoff_counterexample:
  "LinearJitterBackoff 0 0 0 = Inr (1 * Millisecond) \<and>
   \<not> 1 * Millisecond \<le> (0 * 1000 + quo (0 * 1000) 3) * Millisecond"
  by (simp add: LinearJitterBackoff_def jitter_def quo_def Intn_def wrap64_def Millisecond_def)

section \<open>One worker\<close>

lemma log_entry_fields [simp]:
  "MaxRetries (log_entry c e) = MaxRetries c"
  "KeepLog (log_entry c e) = KeepLog c"
  "Backoff (log_entry c e) = Backoff c"
  "Concurrency (log_entry c e) = Concurrency c"
  by (simp_all add: log_entry_def)

lemma send_constant [simp]: "send (constant_world a) p orb ob t = a"
  by (cases "meth p") (simp_all add: send.simps constant_world_def)

lemma now_constant: "now (constant_world a) t = 1700000000 + snd t"
  by (simp add: constant_world_def)

lemma reply_cases: "succeeded a \<or> failed a \<or> a = (None, None)"
  by (cases a rule: succeeded.cases) auto

lemma worker_loop_exhausted:
  "\<not> i < MaxRetries c \<Longrightarrow>
   worker_loop c w p orb ob n i rsp er k =
     (c, k, Sent \<lparr>resp = rsp, err = er, req = 0, retry = 0\<rparr>)"
  by (subst worker_loop.simps) simp

lemma worker_loop_panic:
  "i < MaxRetries c \<Longrightarrow> send w p orb ob (n, i) = (None, None) \<Longrightarrow>
   worker_loop c w p orb ob n i rsp er k = (c, Suc k, Panicked)"
  by (subst worker_loop.simps) simp

lemma worker_loop_success:
  "i < MaxRetries c \<Longrightarrow> succeeded (send w p orb ob (n, i)) \<Longrightarrow>
   worker_loop c w p orb ob n i rsp er k =
     (c, Suc k, Sent \<lparr>resp = fst (send w p orb ob (n, i)), err = None, req = n, retry = i\<rparr>)"
  by (subst worker_loop.simps, cases "send w p orb ob (n, i)" rule: succeeded.cases) simp_all

lemma worker_loop_failure:
  "i < MaxRetries c \<Longrightarrow> failed (send w p orb ob (n, i)) \<Longrightarrow>
   worker_loop c w p orb ob n i rsp er k =
     (if wrap64 (Backoff c i + 1 * Microsecond) \<le> 0
      then (log_entry c (failure_entry w p orb ob n i), Suc k, Stuck)
      else worker_loop (log_entry c (failure_entry w p orb ob n i)) w p orb ob n (i + 1)
             (fst (send w p orb ob (n, i))) (error_of (send w p orb ob (n, i))) (Suc k))"
  by (subst worker_loop.simps, cases "send w p orb ob (n, i)" rule: failed.cases)
     (simp_all add: failure_entry_def Let_def)

text \<open>
  C2. One attempt, retry \<open>i\<close> of worker \<open>n\<close>, by what the transport answers. With no
  error and a status code below 400 the worker sends the response, tagged \<open>n\<close> and \<open>i\<close>,
  and logs nothing: the only case of success. With no error and a status code of 400 or
  more it logs an entry whose error is the status line, and goes on (or waits for ever)
  with that error. With a transport error it logs that error and goes on with it. No
  error and no response is a panic.
\<close>

theorem attempt_classification:
  assumes "i < MaxRetries c"
  shows "(\<forall>r. send w p orb ob (n, i) = (Some r, None) \<and> StatusCode r < 400 \<longrightarrow>
            worker_loop c w p orb ob n i rsp er k =
              (c, Suc k, Sent \<lparr>resp = Some r, err = None, req = n, retry = i\<rparr>)) \<and>
         (\<forall>r. send w p orb ob (n, i) = (Some r, None) \<and> 400 \<le> StatusCode r \<longrightarrow>
            worker_loop c w p orb ob n i rsp er k =
              (let c1 = log_entry c \<lparr>Time = now w (n, i), Method = route_name (meth p),
                          URL = url p, Verb = verb p, Request = n, Retry = i,
                          Err = Some (Status r)\<rparr>
               in if wrap64 (Backoff c i + 1 * Microsecond) \<le> 0 then (c1, Suc k, Stuck)
                  else worker_loop c1 w p orb ob n (i + 1) (Some r) (Some (Status r)) (Suc k))) \<and>
         (\<forall>ro e. send w p orb ob (n, i) = (ro, Some e) \<longrightarrow>
            worker_loop c w p orb ob n i rsp er k =
              (let c1 = log_entry c \<lparr>Time = now w (n, i), Method = route_name (meth p),
                          URL = url p, Verb = verb p, Request = n, Retry = i,
                          Err = Some e\<rparr>
               in if wrap64 (Backoff c i + 1 * Microsecond) \<le> 0 then (c1, Suc k, Stuck)
                  else worker_loop c1 w p orb ob n (i + 1) ro (Some e) (Suc k))) \<and>
         (send w p orb ob (n, i) = (None, None) \<longrightarrow>
            worker_loop c w p orb ob n i rsp er k = (c, Suc k, Panicked))"
proof (intro conjI allI impI)
  fix r
  assume "send w p orb ob (n, i) = (Some r, None) \<and> StatusCode r < 400"
  with assms show "worker_loop c w p orb ob n i rsp er k =
      (c, Suc k, Sent \<lparr>resp = Some r, err = None, req = n, retry = i\<rparr>)"
    by (simp add: worker_loop_success)
next
  fix r
  assume a: "send w p orb ob (n, i) = (Some r, None) \<and> 400 \<le> StatusCode r"
  then have "failed (send w p orb ob (n, i))"
    by simp
  from worker_loop_failure [OF assms this] a
  show "worker_loop c w p orb ob n i rsp er k =
      (let c1 = log_entry c \<lparr>Time = now w (n, i), Method = route_name (meth p),
                  URL = url p, Verb = verb p, Request = n, Retry = i, Err = Some (Status r)\<rparr>
       in if wrap64 (Backoff c i + 1 * Microsecond) \<le> 0 then (c1, Suc k, Stuck)
          else worker_loop c1 w p orb ob n (i + 1) (Some r) (Some (Status r)) (Suc k))"
    by (simp add: failure_entry_def Let_def)
next
  fix ro e
  assume a: "send w p orb ob (n, i) = (ro, Some e)"
  then have "failed (send w p orb ob (n, i))"
    by simp
  from worker_loop_failure [OF assms this] a
  show "worker_loop c w p orb ob n i rsp er k =
      (let c1 = log_entry c \<lparr>Time = now w (n, i), Method = route_name (meth p),
                  URL = url p, Verb = verb p, Request = n, Retry = i, Err = Some e\<rparr>
       in if wrap64 (Backoff c i + 1 * Microsecond) \<le> 0 then (c1, Suc k, Stuck)
          else worker_loop c1 w p orb ob n (i + 1) ro (Some e) (Suc k))"
    by (simp add: failure_entry_def Let_def)
next
  assume "send w p orb ob (n, i) = (None, None)"
  with assms show "worker_loop c w p orb ob n i rsp er k = (c, Suc k, Panicked)"
    by (simp add: worker_loop_panic)
qed

theorem attempt_classification_witness:
  "(1::int) < MaxRetries retrying_client \<and>
   send (constant_world server_error) (Get_params ''http://example.com'') [] [] (0, 1) =
     (Some \<lparr>Status = ''500 Internal Server Error'', StatusCode = 500\<rparr>, None) \<and>
   (400::int) \<le> StatusCode \<lparr>Status = ''500 Internal Server Error'', StatusCode = 500\<rparr> \<and>
   worker_loop retrying_client (constant_world server_error) (Get_params ''http://example.com'')
       [] [] 0 1 None None 1 =
     (retrying_client\<lparr>ErrLog :=
        [\<lparr>Time = 1700000001, Method = ''Get'', URL = ''http://example.com'', Verb = ''GET'',
          Request = 0, Retry = 1, Err = Some ''500 Internal Server Error''\<rparr>]\<rparr>,
      2,
      Sent \<lparr>resp = Some \<lparr>Status = ''500 Internal Server Error'', StatusCode = 500\<rparr>,
            err = Some ''500 Internal Server Error'', req = 0, retry = 0\<rparr>)"
proof -
  have lt: "(1::int) < MaxRetries retrying_client"
    by (simp add: retrying_client_def DefaultClient_def)
  have stop: "\<not> (2::int) < MaxRetries (log_entry retrying_client e)" for e
    by (simp add: retrying_client_def DefaultClient_def)
  from attempt_classification [OF lt, of "constant_world server_error"
      "Get_params ''http://example.com''" "[]" "[]" 0 None None 1] lt
  show ?thesis
    by (simp add: server_error_def worker_loop_exhausted [OF stop] Let_def)
       (simp add: retrying_client_def DefaultClient_def DefaultBackoff_def wrap64_def Second_def
         Microsecond_def log_entry_def Get_params_def constant_world_def)
qed

lemma worker_loop_all_failed:
  assumes "worker_loop c w p orb ob n i rsp er k = (c', k', Sent r)"
    and "\<forall>j. i \<le> j \<and> j < MaxRetries c \<longrightarrow> failed (send w p orb ob (n, j))"
  shows "c' = c\<lparr>ErrLog := ErrLog c @
             (if KeepLog c then map (failure_entry w p orb ob n) [i..MaxRetries c - 1] else [])\<rparr> \<and>
         k' = k + nat (MaxRetries c - i) \<and> req r = 0 \<and> retry r = 0 \<and>
         (i < MaxRetries c \<longrightarrow>
            resp r = fst (send w p orb ob (n, MaxRetries c - 1)) \<and>
            err r = error_of (send w p orb ob (n, MaxRetries c - 1))) \<and>
         (\<not> i < MaxRetries c \<longrightarrow> resp r = rsp \<and> err r = er)"
  using assms
proof (induction d \<equiv> "nat (MaxRetries c - i)" arbitrary: c i rsp er k)
  case 0
  then have stop: "\<not> i < MaxRetries c"
    by simp
  with "0.prems"(1) show ?case
    by (auto simp: worker_loop_exhausted)
next
  case (Suc d)
  let ?a = "send w p orb ob (n, i)"
  let ?c1 = "log_entry c (failure_entry w p orb ob n i)"
  from Suc.hyps(2) have lt: "i < MaxRetries c"
    by simp
  with Suc.prems(2) have f: "failed ?a"
    by simp
  from Suc.prems(1) have tick: "\<not> wrap64 (Backoff c i + 1 * Microsecond) \<le> 0"
    and run: "worker_loop ?c1 w p orb ob n (i + 1) (fst ?a) (error_of ?a) (Suc k) = (c', k', Sent r)"
    by (simp_all add: worker_loop_failure [OF lt f] split: if_splits)
  have d: "d = nat (MaxRetries ?c1 - (i + 1))"
    using Suc.hyps(2) by simp
  have rest: "\<forall>j. i + 1 \<le> j \<and> j < MaxRetries ?c1 \<longrightarrow> failed (send w p orb ob (n, j))"
    using Suc.prems(2) by simp
  note IH = Suc.hyps(1) [OF d run rest]
  have up: "[i..MaxRetries c - 1] = i # [i + 1..MaxRetries c - 1]"
    using lt by (simp add: upto_rec1)
  have c': "c' = c\<lparr>ErrLog := ErrLog c @
             (if KeepLog c then map (failure_entry w p orb ob n) [i..MaxRetries c - 1] else [])\<rparr>"
    using IH by (simp add: up log_entry_def)
  have k': "k' = k + nat (MaxRetries c - i)"
    using IH lt by simp
  have last: "resp r = fst (send w p orb ob (n, MaxRetries c - 1)) \<and>
      err r = error_of (send w p orb ob (n, MaxRetries c - 1))"
  proof (cases "i + 1 < MaxRetries c")
    case True
    with IH show ?thesis by simp
  next
    case False
    with lt have "MaxRetries c - 1 = i" by simp
    with False IH show ?thesis by simp
  qed
  from c' k' last IH lt show ?case
    by simp
qed


lemma worker_loop_sent:
  assumes "worker_loop c w p orb ob n i rsp er k = (c', k', Sent r)"
  shows "(\<exists>j. i \<le> j \<and> j < MaxRetries c \<and> succeeded (send w p orb ob (n, j)) \<and>
            (\<forall>j'. i \<le> j' \<and> j' < j \<longrightarrow> failed (send w p orb ob (n, j'))) \<and>
            r = \<lparr>resp = fst (send w p orb ob (n, j)), err = None, req = n, retry = j\<rparr>) \<or>
         ((\<forall>j. i \<le> j \<and> j < MaxRetries c \<longrightarrow> failed (send w p orb ob (n, j))) \<and>
            req r = 0 \<and> retry r = 0)"
  using assms
proof (induction d \<equiv> "nat (MaxRetries c - i)" arbitrary: c i rsp er k)
  case 0
  then have stop: "\<not> i < MaxRetries c"
    by simp
  with "0.prems" show ?case
    by (auto simp: worker_loop_exhausted)
next
  case (Suc d)
  let ?a = "send w p orb ob (n, i)"
  let ?c1 = "log_entry c (failure_entry w p orb ob n i)"
  from Suc.hyps(2) have lt: "i < MaxRetries c"
    by simp
  consider (ok) "succeeded ?a" | (ko) "failed ?a" | (nil) "?a = (None, None)"
    using reply_cases by blast
  then show ?case
  proof cases
    case ok
    with Suc.prems lt
    have "r = \<lparr>resp = fst ?a, err = None, req = n, retry = i\<rparr>"
      by (simp add: worker_loop_success)
    with ok lt show ?thesis
      by (intro disjI1 exI [of _ i]) auto
  next
    case ko
    from Suc.prems
    have run: "worker_loop ?c1 w p orb ob n (i + 1) (fst ?a) (error_of ?a) (Suc k) = (c', k', Sent r)"
      by (simp add: worker_loop_failure [OF lt ko] split: if_splits)
    have d: "d = nat (MaxRetries ?c1 - (i + 1))"
      using Suc.hyps(2) by simp
    from Suc.hyps(1) [OF d run] show ?thesis
    proof (elim disjE exE conjE)
      fix j
      assume j: "i + 1 \<le> j" "j < MaxRetries ?c1" "succeeded (send w p orb ob (n, j))"
        and before: "\<forall>j'. i + 1 \<le> j' \<and> j' < j \<longrightarrow> failed (send w p orb ob (n, j'))"
        and r: "r = \<lparr>resp = fst (send w p orb ob (n, j)), err = None, req = n, retry = j\<rparr>"
      have "\<forall>j'. i \<le> j' \<and> j' < j \<longrightarrow> failed (send w p orb ob (n, j'))"
      proof (intro allI impI)
        fix j'
        assume "i \<le> j' \<and> j' < j"
        then have "j' = i \<or> (i + 1 \<le> j' \<and> j' < j)"
          by auto
        with ko before show "failed (send w p orb ob (n, j'))"
          by auto
      qed
      with j r show ?thesis
        by (intro disjI1 exI [of _ j]) simp
    next
      assume rest: "\<forall>j. i + 1 \<le> j \<and> j < MaxRetries ?c1 \<longrightarrow> failed (send w p orb ob (n, j))"
        and tags: "req r = 0" "retry r = 0"
      have "\<forall>j. i \<le> j \<and> j < MaxRetries c \<longrightarrow> failed (send w p orb ob (n, j))"
      proof (intro allI impI)
        fix j
        assume "i \<le> j \<and> j < MaxRetries c"
        then have "j = i \<or> (i + 1 \<le> j \<and> j < MaxRetries ?c1)"
          by auto
        with ko rest show "failed (send w p orb ob (n, j))"
          by auto
      qed
      with tags show ?thesis
        by simp
    qed
  next
    case nil
    with Suc.prems lt show ?thesis
      by (simp add: worker_loop_panic)
  qed
qed

text \<open>
  A worker sends a result when the transport never answers with neither response nor
  error and every wait is for a positive duration.
\<close>

lemma worker_loop_sends:
  assumes "\<forall>j. i \<le> j \<and> j < MaxRetries c \<longrightarrow>
             send w p orb ob (n, j) \<noteq> (None, None) \<and> 0 < wrap64 (Backoff c j + 1 * Microsecond)"
  shows "\<exists>c' k' r. worker_loop c w p orb ob n i rsp er k = (c', k', Sent r)"
  using assms
proof (induction d \<equiv> "nat (MaxRetries c - i)" arbitrary: c i rsp er k)
  case 0
  then have "\<not> i < MaxRetries c"
    by simp
  then show ?case
    by (simp add: worker_loop_exhausted)
next
  case (Suc d)
  let ?a = "send w p orb ob (n, i)"
  let ?c1 = "log_entry c (failure_entry w p orb ob n i)"
  from Suc.hyps(2) have lt: "i < MaxRetries c"
    by simp
  with Suc.prems have here: "?a \<noteq> (None, None)" "0 < wrap64 (Backoff c i + 1 * Microsecond)"
    by simp_all
  then consider (ok) "succeeded ?a" | (ko) "failed ?a"
    using reply_cases by blast
  then show ?case
  proof cases
    case ok
    with lt show ?thesis
      by (simp add: worker_loop_success)
  next
    case ko
    have d: "d = nat (MaxRetries ?c1 - (i + 1))"
      using Suc.hyps(2) by simp
    have rest: "\<forall>j. i + 1 \<le> j \<and> j < MaxRetries ?c1 \<longrightarrow>
        send w p orb ob (n, j) \<noteq> (None, None) \<and> 0 < wrap64 (Backoff ?c1 j + 1 * Microsecond)"
      using Suc.prems by simp
    from Suc.hyps(1) [OF d rest, of "fst ?a" "error_of ?a" "Suc k"] here(2) show ?thesis
      by (simp add: worker_loop_failure [OF lt ko])
  qed
qed

section \<open>The call\<close>

lemma worker_loop_log:
  "\<exists>es. ErrLog (fst (worker_loop c w p orb ob n i rsp er k)) = ErrLog c @ es \<and>
        (\<forall>e \<in> set es. Request e = n)"
proof (induction d \<equiv> "nat (MaxRetries c - i)" arbitrary: c i rsp er k)
  case 0
  then have "\<not> i < MaxRetries c"
    by simp
  then show ?case
    by (simp add: worker_loop_exhausted)
next
  case (Suc d)
  let ?a = "send w p orb ob (n, i)"
  let ?c1 = "log_entry c (failure_entry w p orb ob n i)"
  from Suc.hyps(2) have lt: "i < MaxRetries c"
    by simp
  have step: "\<exists>es. ErrLog ?c1 = ErrLog c @ es \<and> (\<forall>e \<in> set es. Request e = n)"
    by (simp add: log_entry_def failure_entry_def)
  consider (ok) "succeeded ?a" | (ko) "failed ?a" | (nil) "?a = (None, None)"
    using reply_cases by blast
  then show ?case
  proof cases
    case ok
    with lt show ?thesis
      by (simp add: worker_loop_success)
  next
    case ko
    show ?thesis
    proof (cases "wrap64 (Backoff c i + 1 * Microsecond) \<le> 0")
      case True
      with step show ?thesis
        by (simp add: worker_loop_failure [OF lt ko])
    next
      case False
      have d: "d = nat (MaxRetries ?c1 - (i + 1))"
        using Suc.hyps(2) by simp
      from Suc.hyps(1) [OF d, of "fst ?a" "error_of ?a" "Suc k"] obtain es2
        where es2: "ErrLog (fst (worker_loop ?c1 w p orb ob n (i + 1) (fst ?a) (error_of ?a) (Suc k))) =
            ErrLog ?c1 @ es2" "\<forall>e \<in> set es2. Request e = n"
        by blast
      from step obtain es1 where es1: "ErrLog ?c1 = ErrLog c @ es1" "\<forall>e \<in> set es1. Request e = n"
        by blast
      from es1 es2 False show ?thesis
        by (intro exI [of _ "es1 @ es2"]) (auto simp: worker_loop_failure [OF lt ko])
    qed
  next
    case nil
    with lt show ?thesis
      by (simp add: worker_loop_panic)
  qed
qed

lemma appended_worker:
  "\<forall>e \<in> set (appended c (fst (worker c w p orb ob n))). Request e = n"
  using worker_loop_log [of c w p orb ob n 0 "Some empty_response" None 0]
  by (auto simp: appended_def worker_def)

lemma appended_same [simp]: "appended c c = []"
  by (simp add: appended_def)

lemma length_spawn: "length (spawn c w p orb ob) = nat (concurrency c p)"
  by (simp add: spawn_def)

lemma spawn_nth:
  assumes "0 \<le> n" and "n < concurrency c p"
  shows "spawn c w p orb ob ! nat n =
           (appended c (fst (worker c w p orb ob n)), fst (snd (worker c w p orb ob n)),
            snd (snd (worker c w p orb ob n)))"
proof -
  have "nat n < length [0..concurrency c p - 1]"
    using assms by simp
  moreover have "[0..concurrency c p - 1] ! nat n = n"
    using assms by (simp add: nth_upto)
  ultimately show ?thesis
    by (simp add: spawn_def split: prod.split)
qed

lemma queue_nth:
  assumes "m < nat (concurrency c p)"
  shows "map fst (spawn c w p orb ob) ! m = appended c (fst (worker c w p orb ob (int m)))"
proof -
  from assms have "0 \<le> int m" "int m < concurrency c p"
    by simp_all
  from spawn_nth [OF this, of w orb ob] assms show ?thesis
    by (simp add: length_spawn)
qed

lemma pester_read:
  "read_request_body p = Inr orb \<Longrightarrow> read_body p = Inr ob \<Longrightarrow>
   pester c w p = concat (map (receive c w (spawn c w p orb ob)) [0..concurrency c p - 1])"
  by (simp add: pester_def)

lemma in_pester:
  assumes "read_request_body p = Inr orb" and "read_body p = Inr ob"
  shows "x \<in> set (pester c w p) \<longleftrightarrow>
         (\<exists>n. 0 \<le> n \<and> n < concurrency c p \<and> x \<in> set (receive c w (spawn c w p orb ob) n))"
  by (auto simp: pester_read [OF assms])

lemma in_receive:
  assumes "0 \<le> n" and "n < concurrency c p"
  shows "x \<in> set (receive c w (spawn c w p orb ob) n) \<longleftrightarrow>
   (\<exists>c' k r. worker c w p orb ob n = (c', k, Sent r) \<and>
      x = \<lparr>client = c\<lparr>ErrLog := ErrLog c @
                interleave (schedule w) (nat n) (map fst (spawn c w p orb ob)),
              SuccessReqNum := req r, SuccessRetryNum := retry r\<rparr>,
            ret_resp = resp r, ret_err = err r, calls = k\<rparr>)"
proof (cases "worker c w p orb ob n")
  case (fields c' k e)
  with spawn_nth [OF assms, of w orb ob] show ?thesis
    by (cases e) (auto simp: receive_def)
qed

lemma interleave_filter:
  assumes "n < length qs" and "\<forall>e \<in> set (qs ! n). P e"
    and "\<forall>m. m < length qs \<and> m \<noteq> n \<longrightarrow> (\<forall>e \<in> set (qs ! m). \<not> P e)"
  shows "filter P (interleave ms n qs) = qs ! n"
  using assms
proof (induction ms arbitrary: qs)
  case Nil
  then show ?case
    by (simp add: filter_id_conv)
next
  case (Cons m ms)
  show ?case
  proof (cases "m < length qs")
    case False
    with Cons show ?thesis by simp
  next
    case True
    show ?thesis
    proof (cases "qs ! m")
      case Nil
      with True Cons show ?thesis by simp
    next
      case (Cons e es)
      let ?qs = "qs[m := es]"
      have len: "n < length ?qs"
        using Cons.prems(1) by simp
      show ?thesis
      proof (cases "m = n")
        case True
        with Cons Cons.prems have e: "P e" and es: "\<forall>e \<in> set es. P e"
          by auto
        have a: "\<forall>e \<in> set (?qs ! n). P e"
          using es True Cons.prems(1) by simp
        have b: "\<forall>k. k < length ?qs \<and> k \<noteq> n \<longrightarrow> (\<forall>e \<in> set (?qs ! k). \<not> P e)"
          using Cons.prems(3) True by simp
        from Cons.IH [OF len a b] e True Cons \<open>m < length qs\<close> show ?thesis
          by simp
      next
        case False
        with Cons Cons.prems \<open>m < length qs\<close> have e: "\<not> P e" and es: "\<forall>e \<in> set es. \<not> P e"
          by auto
        have a: "\<forall>e \<in> set (?qs ! n). P e"
          using Cons.prems(2) False by simp
        have b: "\<forall>k. k < length ?qs \<and> k \<noteq> n \<longrightarrow> (\<forall>e \<in> set (?qs ! k). \<not> P e)"
        proof (intro allI impI)
          fix k
          assume k: "k < length ?qs \<and> k \<noteq> n"
          show "\<forall>e \<in> set (?qs ! k). \<not> P e"
          proof (cases "k = m")
            case True
            with k es show ?thesis by simp
          next
            case False
            with k Cons.prems(3) show ?thesis by simp
          qed
        qed
        from Cons.IH [OF len a b] e False Cons \<open>m < length qs\<close> show ?thesis
          by simp
      qed
    qed
  qed
qed

lemma interleave_empty:
  "\<forall>q \<in> set qs. q = [] \<Longrightarrow> interleave ms n qs = []"
proof (induction ms)
  case Nil
  then show ?case by simp
next
  case (Cons m ms)
  show ?case
  proof (cases "m < length qs")
    case True
    with Cons.prems have "qs ! m = []"
      by simp
    with True Cons.IH [OF Cons.prems] show ?thesis
      by simp
  next
    case False
    with Cons show ?thesis
      by simp
  qed
qed

text \<open>
  C1, as the code has it. The effective concurrency is 1 for every verb other than the
  string \<open>GET\<close>: for \<open>Head\<close>, \<open>Post\<close>, \<open>PostForm\<close>, and \<open>Do\<close> with a request whose
  method is not \<open>GET\<close>; one worker is started. For the verb \<open>GET\<close>, that is for \<open>Get\<close>
  and for \<open>Do\<close> with a \<open>GET\<close> request, and a configured \<open>Concurrency\<close> of at least 1,
  it is the configured \<open>Concurrency\<close>, and that many workers are started.
\<close>

theorem effective_concurrency:
  "concurrency c (Head_params u) = 1 \<and>
   concurrency c (Post_params u bt b) = 1 \<and>
   concurrency c (PostForm_params u d) = 1 \<and>
   (req_Method r \<noteq> ''GET'' \<longrightarrow> concurrency c (Do_params r) = 1) \<and>
   (verb p \<noteq> ''GET'' \<longrightarrow> concurrency c p = 1 \<and> length (spawn c w p orb ob) = 1) \<and>
   (verb p = ''GET'' \<and> 1 \<le> Concurrency c \<longrightarrow>
      concurrency c p = Concurrency c \<and> length (spawn c w p orb ob) = nat (Concurrency c)) \<and>
   (1 \<le> Concurrency c \<longrightarrow> concurrency c (Get_params u) = Concurrency c) \<and>
   (req_Method r = ''GET'' \<and> 1 \<le> Concurrency c \<longrightarrow> concurrency c (Do_params r) = Concurrency c)"
  by (simp add: concurrency_def spawn_def Head_params_def Post_params_def PostForm_params_def
      Do_params_def Get_params_def)

theorem effective_concurrency_witness:
  "verb (Get_params ''http://example.com'') = ''GET'' \<and>
   (1::int) \<le> Concurrency (DefaultClient\<lparr>Concurrency := 3\<rparr>) \<and>
   concurrency (DefaultClient\<lparr>Concurrency := 3\<rparr>) (Get_params ''http://example.com'') = 3 \<and>
   length (spawn (DefaultClient\<lparr>Concurrency := 3\<rparr>) (constant_world server_error) (Get_params ''http://example.com'') [] []) = 3 \<and>
   concurrency (DefaultClient\<lparr>Concurrency := 3\<rparr>) (Post_params ''http://example.com'' ''text/plain'' None) = 1"
  using effective_concurrency [of "DefaultClient\<lparr>Concurrency := 3\<rparr>" "''http://example.com''" "''text/plain''" None "[]" get_request
     "Get_params ''http://example.com''" "constant_world server_error" "[]" "[]"]
  by (simp add: Get_params_def)


text \<open>
  \<open>Head\<close> with a \<open>Concurrency\<close> of 3 runs with an effective concurrency of 1, and
  \<open>Do\<close> with a \<open>GET\<close> request runs with 3.
\<close>

theorem effective_concurrency_counterexample:
  "concurrency (DefaultClient\<lparr>Concurrency := 3\<rparr>) (Head_params ''http://example.com'') = 1 \<and>
  concurrency (DefaultClient\<lparr>Concurrency := 3\<rparr>) (Do_params get_request) = 3"
  by (simp add: concurrency_def Head_params_def Do_params_def get_request_def)

text \<open>
  C3, as the code has it. The result the orchestrator receives comes from a worker \<open>n\<close>
  below the effective concurrency, and \<open>SuccessReqNum\<close> and \<open>SuccessRetryNum\<close> are the
  tags \<open>req\<close> and \<open>retry\<close> of that result. Either an attempt \<open>j\<close> of the worker
  succeeded after all earlier ones had failed, and the result carries its response, no
  error, and the tags \<open>n\<close> and \<open>j\<close>; or all \<open>MaxRetries\<close> attempts failed, and the
  result carries the response and the error of the last attempt (when there was one) and
  the tags 0 and 0, whatever the worker's index.
\<close>

theorem winning_outcome_tags:
  assumes "read_request_body p = Inr orb" and "read_body p = Inr ob"
    and "x \<in> set (pester c w p)"
  shows "\<exists>n c' k r. 0 \<le> n \<and> n < concurrency c p \<and>
           worker c w p orb ob n = (c', k, Sent r) \<and>
           SuccessReqNum (client x) = req r \<and> SuccessRetryNum (client x) = retry r \<and>
           ret_resp x = resp r \<and> ret_err x = err r \<and>
           ((\<exists>j. 0 \<le> j \<and> j < MaxRetries c \<and> succeeded (send w p orb ob (n, j)) \<and>
                 (\<forall>j'. 0 \<le> j' \<and> j' < j \<longrightarrow> failed (send w p orb ob (n, j'))) \<and>
                 r = \<lparr>resp = fst (send w p orb ob (n, j)), err = None, req = n, retry = j\<rparr>) \<or>
            ((\<forall>j. 0 \<le> j \<and> j < MaxRetries c \<longrightarrow> failed (send w p orb ob (n, j))) \<and>
               req r = 0 \<and> retry r = 0 \<and>
               (1 \<le> MaxRetries c \<longrightarrow>
                  resp r = fst (send w p orb ob (n, MaxRetries c - 1)) \<and>
                  err r = error_of (send w p orb ob (n, MaxRetries c - 1)))))"
proof -
  from assms obtain n where n: "0 \<le> n" "n < concurrency c p"
    and "x \<in> set (receive c w (spawn c w p orb ob) n)"
    by (auto simp: in_pester)
  then obtain c' k r where run: "worker c w p orb ob n = (c', k, Sent r)"
    and x: "x = \<lparr>client = c\<lparr>ErrLog := ErrLog c @
                interleave (schedule w) (nat n) (map fst (spawn c w p orb ob)),
              SuccessReqNum := req r, SuccessRetryNum := retry r\<rparr>,
            ret_resp = resp r, ret_err = err r, calls = k\<rparr>"
    by (auto simp: in_receive)
  from run have loop: "worker_loop c w p orb ob n 0 (Some empty_response) None 0 = (c', k, Sent r)"
    by (simp add: worker_def)
  from worker_loop_sent [OF loop]
  have "(\<exists>j. 0 \<le> j \<and> j < MaxRetries c \<and> succeeded (send w p orb ob (n, j)) \<and>
                 (\<forall>j'. 0 \<le> j' \<and> j' < j \<longrightarrow> failed (send w p orb ob (n, j'))) \<and>
                 r = \<lparr>resp = fst (send w p orb ob (n, j)), err = None, req = n, retry = j\<rparr>) \<or>
            ((\<forall>j. 0 \<le> j \<and> j < MaxRetries c \<longrightarrow> failed (send w p orb ob (n, j))) \<and>
               req r = 0 \<and> retry r = 0 \<and>
               (1 \<le> MaxRetries c \<longrightarrow>
                  resp r = fst (send w p orb ob (n, MaxRetries c - 1)) \<and>
                  err r = error_of (send w p orb ob (n, MaxRetries c - 1))))"
  proof (elim disjE)
    assume "\<exists>j. 0 \<le> j \<and> j < MaxRetries c \<and> succeeded (send w p orb ob (n, j)) \<and>
                 (\<forall>j'. 0 \<le> j' \<and> j' < j \<longrightarrow> failed (send w p orb ob (n, j'))) \<and>
                 r = \<lparr>resp = fst (send w p orb ob (n, j)), err = None, req = n, retry = j\<rparr>"
    then show ?thesis ..
  next
    assume all: "(\<forall>j. 0 \<le> j \<and> j < MaxRetries c \<longrightarrow> failed (send w p orb ob (n, j))) \<and>
        req r = 0 \<and> retry r = 0"
    then have "\<forall>j. 0 \<le> j \<and> j < MaxRetries c \<longrightarrow> failed (send w p orb ob (n, j))"
      by simp
    from worker_loop_all_failed [OF loop this] all show ?thesis
      by simp
  qed
  with n run x show ?thesis
    by (intro exI [of _ n] exI [of _ c'] exI [of _ k] exI [of _ r]) simp
qed

theorem winning_outcome_tags_witness:
  "read_request_body (Get_params ''http://example.com'') = Inr [] \<and>
   read_body (Get_params ''http://example.com'') = Inr [] \<and>
   pester retrying_client (constant_world server_error) (Get_params ''http://example.com'') ! 2
     \<in> set (pester retrying_client (constant_world server_error) (Get_params ''http://example.com'')) \<and>
   (\<exists>n c' k r. 0 \<le> n \<and> n < concurrency retrying_client (Get_params ''http://example.com'') \<and>
      worker retrying_client (constant_world server_error) (Get_params ''http://example.com'') [] [] n = (c', k, Sent r) \<and>
      SuccessReqNum (client (pester retrying_client (constant_world server_error) (Get_params ''http://example.com'') ! 2)) = req r \<and>
      SuccessRetryNum (client (pester retrying_client (constant_world server_error) (Get_params ''http://example.com'') ! 2)) = retry r \<and>
      req r = 0 \<and> retry r = 0 \<and> err r = Some ''500 Internal Server Error'')"
proof -
  let ?w = "constant_world server_error" and ?p = "Get_params ''http://example.com''"
  have h1: "read_request_body ?p = Inr []" and h2: "read_body ?p = Inr []"
    by (simp_all add: read_request_body_def read_body_def Get_params_def)
  have "length (pester retrying_client ?w ?p) = 3"
    by code_simp
  then have h3: "pester retrying_client ?w ?p ! 2 \<in> set (pester retrying_client ?w ?p)"
    by (intro nth_mem) simp
  have no: "\<not> succeeded (send ?w ?p [] [] t)" for t
    by (simp add: server_error_def)
  have m: "MaxRetries retrying_client = 2"
    by (simp add: retrying_client_def DefaultClient_def)
  from winning_outcome_tags [OF h1 h2 h3] obtain n c' k r where n: "0 \<le> n" "n < concurrency retrying_client ?p"
    and run: "worker retrying_client ?w ?p [] [] n = (c', k, Sent r)"
    and tags: "SuccessReqNum (client (pester retrying_client ?w ?p ! 2)) = req r"
      "SuccessRetryNum (client (pester retrying_client ?w ?p ! 2)) = retry r"
    and how: "(\<exists>j. 0 \<le> j \<and> j < MaxRetries retrying_client \<and> succeeded (send ?w ?p [] [] (n, j)) \<and>
                 (\<forall>j'. 0 \<le> j' \<and> j' < j \<longrightarrow> failed (send ?w ?p [] [] (n, j'))) \<and>
                 r = \<lparr>resp = fst (send ?w ?p [] [] (n, j)), err = None, req = n, retry = j\<rparr>) \<or>
            ((\<forall>j. 0 \<le> j \<and> j < MaxRetries retrying_client \<longrightarrow> failed (send ?w ?p [] [] (n, j))) \<and>
               req r = 0 \<and> retry r = 0 \<and>
               (1 \<le> MaxRetries retrying_client \<longrightarrow>
                  resp r = fst (send ?w ?p [] [] (n, MaxRetries retrying_client - 1)) \<and>
                  err r = error_of (send ?w ?p [] [] (n, MaxRetries retrying_client - 1))))"
    by blast
  from how no m have "req r = 0 \<and> retry r = 0 \<and> err r = Some ''500 Internal Server Error''"
    by (auto simp: server_error_def)
  with n run tags have "\<exists>n c' k r. 0 \<le> n \<and> n < concurrency retrying_client ?p \<and>
      worker retrying_client ?w ?p [] [] n = (c', k, Sent r) \<and>
      SuccessReqNum (client (pester retrying_client ?w ?p ! 2)) = req r \<and>
      SuccessRetryNum (client (pester retrying_client ?w ?p ! 2)) = retry r \<and>
      req r = 0 \<and> retry r = 0 \<and> err r = Some ''500 Internal Server Error''"
    by blast
  with h1 h2 h3 show ?thesis
    by (intro conjI)
qed

text \<open>
  Worker 2 of three, after two failed attempts, sends a result tagged 0 and 0, and so
  \<open>SuccessReqNum\<close> is 0 whichever worker's failure is received.
\<close>

theorem winning_outcome_tags_counterexample:
  "snd (snd (worker retrying_client (constant_world server_error) (Get_params ''http://example.com'') [] [] 2)) =
     Sent \<lparr>resp = Some \<lparr>Status = ''500 Internal Server Error'', StatusCode = 500\<rparr>,
           err = Some ''500 Internal Server Error'', req = 0, retry = 0\<rparr> \<and>
   map (\<lambda>x. (SuccessReqNum (client x), SuccessRetryNum (client x)))
     (Client_Get retrying_client (constant_world server_error) ''http://example.com'') = [(0, 0), (0, 0), (0, 0)]"
  by code_simp

lemma send_turns [simp]: "send (turns_world a) p orb ob t = a"
  by (cases "meth p") (simp_all add: send.simps turns_world_def constant_world_def)

text \<open>
  C4. A worker \<open>n\<close> of a client that keeps the log, with \<open>MaxRetries = N\<close> of at
  least 1, whose attempts all fail. Its result can be received whenever every wait
  between attempts is for a positive duration. When its result is the one received, the
  client's log is the old log and, after it, what the workers have appended; among that,
  the entries of worker \<open>n\<close> are exactly \<open>N\<close>, one for each retry in order, all of
  them there before the result was sent; the worker has called the transport \<open>N\<close>
  times, and the error \<open>pester\<close> returns is the error of the last attempt.
\<close>

theorem exhausted_worker_log:
  assumes "1 \<le> MaxRetries c" and "KeepLog c"
    and "\<forall>i. 0 \<le> i \<and> i < MaxRetries c \<longrightarrow> failed (send w p orb ob (n, i))"
    and "read_request_body p = Inr orb" and "read_body p = Inr ob"
    and "0 \<le> n" and "n < concurrency c p"
  shows "((\<forall>i. 0 \<le> i \<and> i < MaxRetries c \<longrightarrow> 0 < wrap64 (Backoff c i + 1 * Microsecond)) \<longrightarrow>
            receive c w (spawn c w p orb ob) n \<noteq> []) \<and>
         (\<forall>x \<in> set (receive c w (spawn c w p orb ob) n).
            x \<in> set (pester c w p) \<and>
            take (length (ErrLog c)) (ErrLog (client x)) = ErrLog c \<and>
            filter (\<lambda>e. Request e = n) (appended c (client x)) =
              map (failure_entry w p orb ob n) [0..MaxRetries c - 1] \<and>
            length (filter (\<lambda>e. Request e = n) (appended c (client x))) = nat (MaxRetries c) \<and>
            calls x = nat (MaxRetries c) \<and>
            ret_err x = error_of (send w p orb ob (n, MaxRetries c - 1)))"
proof (intro conjI impI ballI)
  assume waits: "\<forall>i. 0 \<le> i \<and> i < MaxRetries c \<longrightarrow> 0 < wrap64 (Backoff c i + 1 * Microsecond)"
  have "send w p orb ob (n, i) \<noteq> (None, None)" if "0 \<le> i \<and> i < MaxRetries c" for i
    using assms(3) that by auto
  with waits have "\<exists>c' k r. worker c w p orb ob n = (c', k, Sent r)"
    unfolding worker_def by (intro worker_loop_sends) simp
  then have "\<exists>x. x \<in> set (receive c w (spawn c w p orb ob) n)"
    by (auto simp: in_receive [OF assms(6,7)])
  then show "receive c w (spawn c w p orb ob) n \<noteq> []"
    by auto
next
  fix x
  assume x: "x \<in> set (receive c w (spawn c w p orb ob) n)"
  let ?qs = "map fst (spawn c w p orb ob)"
  let ?own = "map (failure_entry w p orb ob n) [0..MaxRetries c - 1]"
  from x obtain c' k r where sent: "worker c w p orb ob n = (c', k, Sent r)"
    and cl: "client x = c\<lparr>ErrLog := ErrLog c @ interleave (schedule w) (nat n) ?qs,
        SuccessReqNum := req r, SuccessRetryNum := retry r\<rparr>"
    and ret: "ret_err x = err r" "calls x = k"
    by (auto simp: in_receive [OF assms(6,7)])
  from sent have loop: "worker_loop c w p orb ob n 0 (Some empty_response) None 0 = (c', k, Sent r)"
    by (simp add: worker_def)
  note run = worker_loop_all_failed [OF loop assms(3)]
  from run assms(2) have log: "ErrLog c' = ErrLog c @ ?own"
    by simp
  have len: "nat n < length ?qs"
    using assms(6,7) by (simp add: length_spawn)
  have "?qs ! nat n = appended c (fst (worker c w p orb ob (int (nat n))))"
    using len by (intro queue_nth) (simp add: length_spawn)
  with sent log assms(6) have own: "?qs ! nat n = ?own"
    by (simp add: appended_def)
  have mine: "\<forall>e \<in> set (?qs ! nat n). Request e = n"
    unfolding own by (simp add: failure_entry_def)
  have others: "\<forall>m. m < length ?qs \<and> m \<noteq> nat n \<longrightarrow> (\<forall>e \<in> set (?qs ! m). \<not> Request e = n)"
  proof (intro allI impI)
    fix m
    assume m: "m < length ?qs \<and> m \<noteq> nat n"
    then have "?qs ! m = appended c (fst (worker c w p orb ob (int m)))"
      by (intro queue_nth) (simp add: length_spawn)
    moreover from m assms(6) have "int m \<noteq> n"
      by auto
    ultimately show "\<forall>e \<in> set (?qs ! m). \<not> Request e = n"
      using appended_worker [of c w p orb ob "int m"] by auto
  qed
  from interleave_filter [of "nat n" ?qs "\<lambda>e. Request e = n", OF len mine others] own
  have filt: "filter (\<lambda>e. Request e = n) (interleave (schedule w) (nat n) ?qs) = ?own"
    by simp
  from cl have app: "appended c (client x) = interleave (schedule w) (nat n) ?qs"
    by (simp add: appended_def)
  from x assms(6,7) show "x \<in> set (pester c w p)"
    unfolding in_pester [OF assms(4,5)] by blast
  from cl show "take (length (ErrLog c)) (ErrLog (client x)) = ErrLog c"
    by simp
  from app filt show "filter (\<lambda>e. Request e = n) (appended c (client x)) = ?own"
    by simp
  then show "length (filter (\<lambda>e. Request e = n) (appended c (client x))) = nat (MaxRetries c)"
    by simp
  from run ret show "calls x = nat (MaxRetries c)"
    by simp
  from run ret assms(1) show "ret_err x = error_of (send w p orb ob (n, MaxRetries c - 1))"
    by simp
qed

theorem exhausted_worker_log_witness:
  "(1::int) \<le> MaxRetries retrying_client \<and> KeepLog retrying_client \<and>
   failed (send (turns_world server_error) (Get_params ''http://example.com'') [] [] (2, 0)) \<and>
   failed (send (turns_world server_error) (Get_params ''http://example.com'') [] [] (2, 1)) \<and>
   read_request_body (Get_params ''http://example.com'') = Inr [] \<and>
   read_body (Get_params ''http://example.com'') = Inr [] \<and>
   (2::int) < concurrency retrying_client (Get_params ''http://example.com'') \<and>
   0 < wrap64 (Backoff retrying_client 0 + 1 * Microsecond) \<and>
   0 < wrap64 (Backoff retrying_client 1 + 1 * Microsecond) \<and>
   map (\<lambda>x. map Request (ErrLog (client x)))
     (receive retrying_client (turns_world server_error)
        (spawn retrying_client (turns_world server_error) (Get_params ''http://example.com'') [] []) 2) =
     [[0, 1, 2, 0, 1, 2]] \<and>
   map (\<lambda>x. (length (filter (\<lambda>e. Request e = 2) (appended retrying_client (client x))),
              calls x, ret_err x))
     (receive retrying_client (turns_world server_error)
        (spawn retrying_client (turns_world server_error) (Get_params ''http://example.com'') [] []) 2) =
     [(2, 2, Some ''500 Internal Server Error'')]"
proof -
  let ?w = "turns_world server_error" and ?p = "Get_params ''http://example.com''"
  let ?xs = "receive retrying_client ?w (spawn retrying_client ?w ?p [] []) 2"
  have h1: "1 \<le> MaxRetries retrying_client" and h2: "KeepLog retrying_client"
    and m: "MaxRetries retrying_client = 2"
    by (simp_all add: retrying_client_def DefaultClient_def)
  have f: "failed (send ?w ?p [] [] (2, i))" for i
    by (simp add: server_error_def)
  then have h3: "\<forall>i. 0 \<le> i \<and> i < MaxRetries retrying_client \<longrightarrow> failed (send ?w ?p [] [] (2, i))"
    by simp
  have h4: "read_request_body ?p = Inr []" and h5: "read_body ?p = Inr []"
    by (simp_all add: read_request_body_def read_body_def Get_params_def)
  have h6: "(0::int) \<le> 2" and h7: "2 < concurrency retrying_client ?p"
    by (simp_all add: concurrency_def Get_params_def retrying_client_def DefaultClient_def)
  have wait: "0 < wrap64 (Backoff retrying_client i + 1 * Microsecond)" for i
    by (simp add: retrying_client_def DefaultClient_def DefaultBackoff_def wrap64_def Second_def Microsecond_def)
  note t = exhausted_worker_log [OF h1 h2 h3 h4 h5 h6 h7]
  from t wait have ne: "?xs \<noteq> []"
    by blast
  have one: "length ?xs = 1"
    by code_simp
  with ne obtain x where xs: "?xs = [x]"
    by (cases ?xs) auto
  then have "x \<in> set ?xs"
    by simp
  with t have "length (filter (\<lambda>e. Request e = 2) (appended retrying_client (client x))) = nat (MaxRetries retrying_client)"
    and "calls x = nat (MaxRetries retrying_client)"
    and "ret_err x = error_of (send ?w ?p [] [] (2, MaxRetries retrying_client - 1))"
    by blast+
  then have "length (filter (\<lambda>e. Request e = 2) (appended retrying_client (client x))) = 2"
    and "calls x = 2" and "ret_err x = Some ''500 Internal Server Error''"
    by (simp_all add: m server_error_def)
  then have a: "map (\<lambda>x. (length (filter (\<lambda>e. Request e = 2) (appended retrying_client (client x))),
              calls x, ret_err x)) ?xs = [(2, 2, Some ''500 Internal Server Error'')]"
    by (simp add: xs)
  have b: "map (\<lambda>x. map Request (ErrLog (client x))) ?xs = [[0, 1, 2, 0, 1, 2]]"
    by code_simp
  from h1 h2 f h4 h5 h7 wait a b show ?thesis
    by (intro conjI)
qed

lemma read_request_body_cases:
  "read_request_body p = Inl ''error reading request body'' \<or> (\<exists>bs. read_request_body p = Inr bs)"
  by (simp add: read_request_body_def ReadAll_def split: option.split)

lemma read_body_cases:
  "read_body p = Inl ''error reading body'' \<or> (\<exists>bs. read_body p = Inr bs)"
  by (simp add: read_body_def ReadAll_def split: option.split)

lemma worker_loop_no_log:
  "\<not> KeepLog c \<Longrightarrow> fst (worker_loop c w p orb ob n i rsp er k) = c"
proof (induction d \<equiv> "nat (MaxRetries c - i)" arbitrary: i rsp er k)
  case 0
  then have "\<not> i < MaxRetries c"
    by simp
  then show ?case
    by (simp add: worker_loop_exhausted)
next
  case (Suc d)
  let ?a = "send w p orb ob (n, i)"
  from Suc.hyps(2) have lt: "i < MaxRetries c"
    by simp
  from Suc.prems have same: "log_entry c e = c" for e
    by (simp add: log_entry_def)
  consider (ok) "succeeded ?a" | (ko) "failed ?a" | (nil) "?a = (None, None)"
    using reply_cases by blast
  then show ?case
  proof cases
    case ok
    with lt show ?thesis
      by (simp add: worker_loop_success)
  next
    case ko
    have d: "d = nat (MaxRetries c - (i + 1))"
      using Suc.hyps(2) by simp
    from Suc.hyps(1) [OF d Suc.prems] show ?thesis
      by (simp add: worker_loop_failure [OF lt ko] same)
  next
    case nil
    with lt show ?thesis
      by (simp add: worker_loop_panic)
  qed
qed

lemma quiet_log:
  assumes "\<forall>n. fst (worker c w p orb ob n) = c"
  shows "interleave ms k (map fst (spawn c w p orb ob)) = []"
proof (rule interleave_empty)
  have "appended c (fst (worker c w p orb ob n)) = []" for n
    using assms by simp
  then show "\<forall>q \<in> set (map fst (spawn c w p orb ob)). q = []"
    by (simp add: spawn_def case_prod_beta)
qed

lemma pester_quiet:
  assumes "\<forall>orb ob n. fst (worker c w p orb ob n) = c" and "x \<in> set (pester c w p)"
  shows "ErrLog (client x) = ErrLog c"
proof -
  consider (e1) "read_request_body p = Inl ''error reading request body''"
    | (e2) bs where "read_request_body p = Inr bs" "read_body p = Inl ''error reading body''"
    | (ok) bs1 bs2 where "read_request_body p = Inr bs1" "read_body p = Inr bs2"
    using read_request_body_cases [of p] read_body_cases [of p] by blast
  then show ?thesis
  proof cases
    case e1
    with assms(2) show ?thesis by (simp add: pester_def)
  next
    case e2
    with assms(2) show ?thesis by (simp add: pester_def)
  next
    case ok
    from assms(2) obtain n where n: "0 \<le> n" "n < concurrency c p"
      and "x \<in> set (receive c w (spawn c w p bs1 bs2) n)"
      by (auto simp: in_pester [OF ok])
    then have "ErrLog (client x) = ErrLog c @
          interleave (schedule w) (nat n) (map fst (spawn c w p bs1 bs2))"
      by (auto simp: in_receive)
    moreover from assms(1) have "\<forall>n. fst (worker c w p bs1 bs2 n) = c"
      by simp
    ultimately show ?thesis
      by (simp add: quiet_log)
  qed
qed

lemma pester_no_log:
  assumes "\<not> KeepLog c" and "x \<in> set (pester c w p)"
  shows "ErrLog (client x) = ErrLog c"
proof (rule pester_quiet [OF _ assms(2)])
  show "\<forall>orb ob n. fst (worker c w p orb ob n) = c"
    unfolding worker_def using assms(1) by (simp add: worker_loop_no_log)
qed

lemma worker_no_retries:
  "MaxRetries c \<le> 0 \<Longrightarrow>
   worker c w p orb ob n = (c, 0, Sent \<lparr>resp = Some empty_response, err = None, req = 0, retry = 0\<rparr>)"
  by (simp add: worker_def worker_loop_exhausted)

text \<open>
  C5. With \<open>MaxRetries\<close> of 0 or less, and a \<open>Concurrency\<close> of at least 1 as the
  data model of the specification has it, the call returns: no worker calls the
  transport, nothing is logged, and the call gives back the empty response, with no
  error or with the error of a body that could not be read.
\<close>

theorem no_retries_returns:
  assumes "MaxRetries c \<le> 0" and "1 \<le> Concurrency c"
  shows "pester c w p \<noteq> [] \<and>
         (\<forall>x \<in> set (pester c w p).
            calls x = 0 \<and> ErrLog (client x) = ErrLog c \<and> ret_resp x = Some empty_response \<and>
            (ret_err x = None \<or> ret_err x = Some ''error reading request body'' \<or>
             ret_err x = Some ''error reading body'')) \<and>
         (\<forall>n. worker c w p orb ob n =
            (c, 0, Sent \<lparr>resp = Some empty_response, err = None, req = 0, retry = 0\<rparr>))"
proof -
  have run: "worker c w p bs1 bs2 n =
      (c, 0, Sent \<lparr>resp = Some empty_response, err = None, req = 0, retry = 0\<rparr>)" for bs1 bs2 n
    using assms(1) by (rule worker_no_retries)
  then have quiet: "\<forall>orb ob n. fst (worker c w p orb ob n) = c"
    by simp
  have pos: "0 < concurrency c p"
    using assms(2) by (simp add: concurrency_def)
  consider (e1) "read_request_body p = Inl ''error reading request body''"
    | (e2) bs where "read_request_body p = Inr bs" "read_body p = Inl ''error reading body''"
    | (ok) bs1 bs2 where "read_request_body p = Inr bs1" "read_body p = Inr bs2"
    using read_request_body_cases [of p] read_body_cases [of p] by blast
  then have "pester c w p \<noteq> [] \<and>
         (\<forall>x \<in> set (pester c w p).
            calls x = 0 \<and> ErrLog (client x) = ErrLog c \<and> ret_resp x = Some empty_response \<and>
            (ret_err x = None \<or> ret_err x = Some ''error reading request body'' \<or>
             ret_err x = Some ''error reading body''))"
  proof cases
    case e1
    then show ?thesis by (simp add: pester_def)
  next
    case e2
    then show ?thesis by (simp add: pester_def)
  next
    case ok
    from pos run obtain x where "x \<in> set (receive c w (spawn c w p bs1 bs2) 0)"
      by (auto simp: in_receive)
    with pos have "x \<in> set (pester c w p)"
      unfolding in_pester [OF ok] by (intro exI [of _ 0]) simp
    then have ne: "pester c w p \<noteq> []"
      by auto
    have "calls x = 0 \<and> ErrLog (client x) = ErrLog c \<and> ret_resp x = Some empty_response \<and>
        ret_err x = None" if x: "x \<in> set (pester c w p)" for x
    proof -
      from x obtain n where n: "0 \<le> n" "n < concurrency c p"
        and "x \<in> set (receive c w (spawn c w p bs1 bs2) n)"
        by (auto simp: in_pester [OF ok])
      then have "calls x = 0 \<and> ret_resp x = Some empty_response \<and> ret_err x = None"
        by (auto simp: in_receive run)
      with pester_quiet [OF quiet x] show ?thesis
        by simp
    qed
    with ne show ?thesis
      by simp
  qed
  with run show ?thesis
    by simp
qed

theorem no_retries_returns_witness:
  "MaxRetries (DefaultClient\<lparr>MaxRetries := 0\<rparr>) \<le> 0 \<and>
   1 \<le> Concurrency (DefaultClient\<lparr>MaxRetries := 0\<rparr>) \<and>
   map (\<lambda>x. (ret_resp x, ret_err x, calls x, ErrLog (client x)))
     (Client_Do (DefaultClient\<lparr>MaxRetries := 0\<rparr>) (constant_world server_error) get_request) =
     [(Some empty_response, None, 0, [])]"
proof -
  let ?c = "DefaultClient\<lparr>MaxRetries := 0\<rparr>"
  have h1: "MaxRetries ?c \<le> 0"
    by simp
  have h2: "1 \<le> Concurrency ?c"
    by (simp add: DefaultClient_def)
  have one: "length (Client_Do ?c (constant_world server_error) get_request) = 1"
    by code_simp
  then obtain x where x: "Client_Do ?c (constant_world server_error) get_request = [x]"
    by (cases "Client_Do ?c (constant_world server_error) get_request") auto
  from no_retries_returns [OF h1 h2, of "constant_world server_error" "Do_params get_request" "[]" "[]"] x
  have "calls x = 0 \<and> ErrLog (client x) = [] \<and> ret_resp x = Some empty_response"
    by (simp add: Client_Do_def DefaultClient_def)
  moreover have "map ret_err (Client_Do ?c (constant_world server_error) get_request) = [None]"
    by code_simp
  ultimately show ?thesis
    using h1 h2 x by simp
qed

text \<open>
  The number of workers for the verb \<open>GET\<close> is the configured \<open>Concurrency\<close> as it
  stands. With a \<open>Concurrency\<close> of 0 no worker is started, whatever \<open>MaxRetries\<close> is:
  there is no result to receive, and the call never returns.
\<close>

lemma no_worker_no_result:
  "Client_Do (DefaultClient\<lparr>Concurrency := 0, MaxRetries := 0\<rparr>) (constant_world server_error) get_request = [] \<and>
   Client_Get (DefaultClient\<lparr>Concurrency := 0\<rparr>) (constant_world server_error) ''http://example.com'' = []"
  by (simp add: Client_Do_def Client_Get_def pester_def read_request_body_def read_body_def Do_params_def Get_params_def
        get_request_def spawn_def concurrency_def DefaultClient_def)

text \<open>
  C6. When the body of the request, or the body reader, ends with an error while it is
  read, \<open>pester\<close> returns at once the empty response and the error
  \<open>error reading request body\<close>, or \<open>error reading body\<close>: no worker is started, the
  transport is not called, and the client is as it was, its log included.
\<close>

theorem body_read_error:
  "(\<forall>r b e. preq p = Some r \<and> req_Body r = Some b \<and> failure b = Some e \<longrightarrow>
      pester c w p =
        [\<lparr>client = c, ret_resp = Some empty_response,
          ret_err = Some ''error reading request body'', calls = 0\<rparr>]) \<and>
   (\<forall>orb b e. read_request_body p = Inr orb \<and> body p = Some b \<and> failure b = Some e \<longrightarrow>
      pester c w p =
        [\<lparr>client = c, ret_resp = Some empty_response,
          ret_err = Some ''error reading body'', calls = 0\<rparr>])"
  by (simp add: pester_def read_request_body_def read_body_def ReadAll_def)

theorem body_read_error_witness:
  "preq (Do_params (get_request\<lparr>req_Method := ''POST'', req_Body := Some broken_reader\<rparr>)) =
     Some (get_request\<lparr>req_Method := ''POST'', req_Body := Some broken_reader\<rparr>) \<and>
   req_Body (get_request\<lparr>req_Method := ''POST'', req_Body := Some broken_reader\<rparr>) = Some broken_reader \<and>
   failure broken_reader = Some ''unexpected EOF'' \<and>
   Client_Do (DefaultClient\<lparr>KeepLog := True\<rparr>) (constant_world server_error)
       (get_request\<lparr>req_Method := ''POST'', req_Body := Some broken_reader\<rparr>) =
     [\<lparr>client = DefaultClient\<lparr>KeepLog := True\<rparr>, ret_resp = Some empty_response,
       ret_err = Some ''error reading request body'', calls = 0\<rparr>] \<and>
   read_request_body (Post_params ''http://example.com'' ''text/plain'' (Some broken_reader)) = Inr [] \<and>
   body (Post_params ''http://example.com'' ''text/plain'' (Some broken_reader)) = Some broken_reader \<and>
   Client_Post (DefaultClient\<lparr>KeepLog := True\<rparr>) (constant_world server_error)
       ''http://example.com'' ''text/plain'' (Some broken_reader) =
     [\<lparr>client = DefaultClient\<lparr>KeepLog := True\<rparr>, ret_resp = Some empty_response,
       ret_err = Some ''error reading body'', calls = 0\<rparr>]"
  using body_read_error [of "Do_params (get_request\<lparr>req_Method := ''POST'', req_Body := Some broken_reader\<rparr>)"
      "DefaultClient\<lparr>KeepLog := True\<rparr>" "constant_world server_error"]
    body_read_error [of "Post_params ''http://example.com'' ''text/plain'' (Some broken_reader)"
      "DefaultClient\<lparr>KeepLog := True\<rparr>" "constant_world server_error"]
  by (simp add: Client_Do_def Client_Post_def Do_params_def Post_params_def broken_reader_def
      read_request_body_def)

section \<open>The log\<close>

lemma foldl_append_lines: "foldl (\<lambda>res e. res @ f e) acc es = acc @ concat (map f es)"
  by (induction es arbitrary: acc) simp_all

lemma LogString_concat: "LogString c = concat (map Sprintf_entry (ErrLog c))"
  by (simp add: LogString_def foldl_append_lines)

lemma digit_no_newline: "k < 10 \<Longrightarrow> ''0123456789'' ! k \<noteq> newline"
proof -
  assume "k < 10"
  then have "''0123456789'' ! k \<in> set ''0123456789''"
    by (intro nth_mem) simp
  then show ?thesis
    by (auto simp: newline_def)
qed

lemma digits_no_newline: "0 \<le> n \<Longrightarrow> newline \<notin> set (digits n)"
proof (induction n rule: digits.induct)
  case (1 n)
  show ?case
  proof (cases "n < 10")
    case True
    with "1.prems" have "nat n < 10" by simp
    then have "''0123456789'' ! nat n \<noteq> newline" by (rule digit_no_newline)
    with True show ?thesis
      by (subst digits.simps) auto
  next
    case False
    then have "0 \<le> n div 10" by simp
    with False "1.IH" have "newline \<notin> set (digits (n div 10))" by simp
    moreover have "nat (n mod 10) < 10" by simp
    then have "''0123456789'' ! nat (n mod 10) \<noteq> newline" by (rule digit_no_newline)
    ultimately show ?thesis
      using False by (subst digits.simps) auto
  qed
qed

lemma decimal_no_newline: "newline \<notin> set (decimal i)"
  by (simp add: decimal_def digits_no_newline) (simp add: newline_def)

lemma newlines_append [simp]: "newlines (xs @ ys) = newlines xs + newlines ys"
  by (simp add: newlines_def)

lemma newlines_none: "newline \<notin> set xs \<Longrightarrow> newlines xs = 0"
  by (induction xs) (auto simp: newlines_def)

lemma newlines_decimal [simp]: "newlines (decimal i) = 0"
  by (rule newlines_none) (rule decimal_no_newline)

lemma newlines_entry:
  "newlines (Sprintf_entry e) =
     1 + (newlines (Method e) + newlines (Verb e) + newlines (URL e) +
          newlines (error_string (Err e)))"
proof -
  have lit: "newlines '' '' = 0" "newlines '' ['' = 0" "newlines ''] to '' = 0"
    "newlines '' request-'' = 0" "newlines '' retry-'' = 0" "newlines '' error: '' = 0"
    by (simp_all add: newlines_def newline_def)
  have one: "newlines [newline] = 1"
    by (simp add: newlines_def)
  show ?thesis
    unfolding Sprintf_entry_def newlines_append lit one newlines_decimal by simp
qed

lemma newlines_lines:
  "newlines (concat (map Sprintf_entry es)) =
     length es + sum_list (map (\<lambda>e. newlines (Method e) + newlines (Verb e) + newlines (URL e) +
                                   newlines (error_string (Err e))) es)"
  by (induction es) (simp_all add: newlines_entry, simp add: newlines_def)

lemma newlines_fields_none:
  assumes "\<forall>e \<in> set es. newline \<notin> set (Method e) \<union> set (Verb e) \<union> set (URL e) \<union>
             set (error_string (Err e))"
  shows "sum_list (map (\<lambda>e. newlines (Method e) + newlines (Verb e) + newlines (URL e) +
                           newlines (error_string (Err e))) es) = 0"
  using assms by (induction es) (simp_all add: newlines_none)

text \<open>
  C9, as the code has it. \<open>LogString\<close> is the concatenation, in the order of
  \<open>ErrLog\<close>, of one record for each entry, the record being
  \<open><unix-seconds> <method> [<verb>] to <url> request-<request> retry-<retry> error: <error>\<close>
  and a newline; it is empty for an empty log, and an entry appended to the log adds its
  record at the end. Method, verb, URL and error text are printed as they are: the
  string has one newline for each entry and one more for each newline in those fields,
  and so exactly one line for each entry when none of them holds a newline.
\<close>

theorem LogString_lines:
  "LogString c = concat (map Sprintf_entry (ErrLog c)) \<and>
   LogString (c\<lparr>ErrLog := []\<rparr>) = [] \<and>
   LogString (c\<lparr>ErrLog := ErrLog c @ [e]\<rparr>) = LogString c @ Sprintf_entry e \<and>
   Sprintf_entry e =
     decimal (Time e) @ '' '' @ Method e @ '' ['' @ Verb e @ ''] to '' @ URL e @
     '' request-'' @ decimal (Request e) @ '' retry-'' @ decimal (Retry e) @
     '' error: '' @ error_string (Err e) @ [newline] \<and>
   newlines (LogString c) =
     length (ErrLog c) +
     sum_list (map (\<lambda>e. newlines (Method e) + newlines (Verb e) + newlines (URL e) +
                       newlines (error_string (Err e))) (ErrLog c)) \<and>
   ((\<forall>e \<in> set (ErrLog c). newline \<notin> set (Method e) \<union> set (Verb e) \<union> set (URL e) \<union>
        set (error_string (Err e))) \<longrightarrow>
      newlines (LogString c) = length (ErrLog c))"
proof (intro conjI impI)
  show "LogString c = concat (map Sprintf_entry (ErrLog c))"
    by (rule LogString_concat)
  show "LogString (c\<lparr>ErrLog := []\<rparr>) = []"
    by (simp add: LogString_def)
  show "LogString (c\<lparr>ErrLog := ErrLog c @ [e]\<rparr>) = LogString c @ Sprintf_entry e"
    by (simp add: LogString_def)
  show "Sprintf_entry e =
     decimal (Time e) @ '' '' @ Method e @ '' ['' @ Verb e @ ''] to '' @ URL e @
     '' request-'' @ decimal (Request e) @ '' retry-'' @ decimal (Retry e) @
     '' error: '' @ error_string (Err e) @ [newline]"
    by (simp add: Sprintf_entry_def)
  show "newlines (LogString c) =
     length (ErrLog c) +
     sum_list (map (\<lambda>e. newlines (Method e) + newlines (Verb e) + newlines (URL e) +
                       newlines (error_string (Err e))) (ErrLog c))"
    unfolding LogString_concat by (rule newlines_lines)
next
  assume "\<forall>e \<in> set (ErrLog c). newline \<notin> set (Method e) \<union> set (Verb e) \<union> set (URL e) \<union>
        set (error_string (Err e))"
  then show "newlines (LogString c) = length (ErrLog c)"
    unfolding LogString_concat newlines_lines by (simp add: newlines_fields_none)
qed

theorem LogString_lines_witness:
  "list_all (\<lambda>e. newline \<notin> set (Method e) \<union> set (Verb e) \<union> set (URL e) \<union> set (error_string (Err e)))
     example_log \<and>
   LogString (DefaultClient\<lparr>ErrLog := example_log\<rparr>) =
     ''1700000000 Get [GET] to http://example.com request-0 retry-0 error: 500 Internal Server Error'' @ [newline] @
     ''-5 Post [POST] to http://example.org request-1 retry-12 error: %!s(<nil>)'' @ [newline] \<and>
   newlines (LogString (DefaultClient\<lparr>ErrLog := example_log\<rparr>)) = 2"
proof -
  have h: "\<forall>e \<in> set example_log.
      newline \<notin> set (Method e) \<union> set (Verb e) \<union> set (URL e) \<union> set (error_string (Err e))"
    by (simp add: example_log_def error_string_def newline_def)
  have s: "concat (map Sprintf_entry example_log) =
     ''1700000000 Get [GET] to http://example.com request-0 retry-0 error: 500 Internal Server Error'' @ [newline] @
     ''-5 Post [POST] to http://example.org request-1 retry-12 error: %!s(<nil>)'' @ [newline]"
    by (simp add: example_log_def Sprintf_entry_def decimal_def digits.simps error_string_def)
  have l: "length example_log = 2"
    by (simp add: example_log_def)
  let ?c = "DefaultClient\<lparr>ErrLog := example_log\<rparr>"
  note t = LogString_lines [of ?c "hd example_log"]
  from t have a: "LogString ?c = concat (map Sprintf_entry (ErrLog ?c))"
    by (rule conjunct1)
  from t have "(\<forall>e \<in> set (ErrLog ?c). newline \<notin> set (Method e) \<union> set (Verb e) \<union> set (URL e) \<union>
        set (error_string (Err e))) \<longrightarrow>
      newlines (LogString ?c) = length (ErrLog ?c)"
    by (elim conjE)
  with h l have b: "newlines (LogString ?c) = 2"
    by simp
  from h have "list_all (\<lambda>e. newline \<notin> set (Method e) \<union> set (Verb e) \<union> set (URL e) \<union> set (error_string (Err e))) example_log"
    by (simp only: list_all_iff)
  moreover from a s have "LogString ?c =
     ''1700000000 Get [GET] to http://example.com request-0 retry-0 error: 500 Internal Server Error'' @ [newline] @
     ''-5 Post [POST] to http://example.org request-1 retry-12 error: %!s(<nil>)'' @ [newline]"
    by simp
  ultimately show ?thesis
    using b by (intro conjI)
qed

text \<open>
  A \<open>Get\<close> of a URL with a newline in it, which the transport refuses, logs one entry,
  and \<open>LogString\<close> has two lines for it.
\<close>

theorem LogString_lines_counterexample:
  "map (\<lambda>x. (length (ErrLog (client x)), newlines (LogString (client x))))
     (Client_Get (DefaultClient\<lparr>KeepLog := True, MaxRetries := 1\<rparr>) (constant_world invalid_url)
        broken_url) = [(1, 2)] \<and>
   map (\<lambda>x. LogString (client x))
     (Client_Get (DefaultClient\<lparr>KeepLog := True, MaxRetries := 1\<rparr>) (constant_world invalid_url)
        broken_url) =
     [''1700000000 Get [GET] to http://example.com/a'' @ [newline] @
      ''b request-0 retry-0 error: net/url: invalid control character in URL'' @ [newline]]"
  by code_simp

text \<open>
  C10, as far as it holds. A client made by \<open>New\<close> has \<open>KeepLog\<close> off, so no worker
  of a call through it, or through the self-constructing \<open>Do\<close>, \<open>Get\<close>, \<open>Head\<close>,
  \<open>Post\<close> and \<open>PostForm\<close>, changes the client: its \<open>ErrLog\<close> stays the one that
  \<open>New\<close> copied from \<open>DefaultClient\<close>, and \<open>LogString\<close> stays the rendering of
  that log, however many attempts fail. It is the empty string when the \<open>ErrLog\<close> of
  \<open>DefaultClient\<close> was empty when \<open>New\<close> ran.
\<close>

theorem New_keeps_no_log:
  "\<not> KeepLog (New dc) \<and> ErrLog (New dc) = ErrLog dc \<and>
   (\<forall>n. fst (worker (New dc) w p orb ob n) = New dc) \<and>
   (\<forall>x \<in> set (pester (New dc) w p).
      ErrLog (client x) = ErrLog dc \<and> LogString (client x) = LogString dc) \<and>
   (\<forall>x \<in> set (Do dc w r). ErrLog (client x) = ErrLog dc) \<and>
   (\<forall>x \<in> set (Get dc w u). ErrLog (client x) = ErrLog dc) \<and>
   (\<forall>x \<in> set (Head dc w u). ErrLog (client x) = ErrLog dc) \<and>
   (\<forall>x \<in> set (Post dc w u bt b). ErrLog (client x) = ErrLog dc) \<and>
   (\<forall>x \<in> set (PostForm dc w u d). ErrLog (client x) = ErrLog dc) \<and>
   (ErrLog dc = [] \<longrightarrow>
      LogString (New dc) = [] \<and> (\<forall>x \<in> set (pester (New dc) w p). LogString (client x) = []))"
proof -
  have off: "\<not> KeepLog (New dc)" and same: "ErrLog (New dc) = ErrLog dc"
    by (simp_all add: New_def)
  have call: "ErrLog (client x) = ErrLog dc" if "x \<in> set (pester (New dc) w' p')" for x w' p'
    using pester_no_log [OF off that] same by simp
  have str: "LogString (client x) = LogString dc" if "x \<in> set (pester (New dc) w p)" for x
    using call [OF that] by (simp add: LogString_def)
  have run: "fst (worker (New dc) w p orb ob n) = New dc" for n
    unfolding worker_def using off by (rule worker_loop_no_log)
  have empty: "LogString (New dc) = []" if "ErrLog dc = []"
    using that same by (simp add: LogString_def)
  have empty': "LogString (client x) = []" if "ErrLog dc = []" "x \<in> set (pester (New dc) w p)" for x
    using call [OF that(2)] that(1) by (simp add: LogString_def)
  from off same run call str empty empty' show ?thesis
    unfolding Do_def Get_def Head_def Post_def PostForm_def
      Client_Do_def Client_Get_def Client_Head_def Client_Post_def Client_PostForm_def
    by blast
qed

theorem New_keeps_no_log_witness:
  "ErrLog DefaultClient = [] \<and> LogString (New DefaultClient) = [] \<and>
   map (\<lambda>x. LogString (client x)) (Get DefaultClient (constant_world server_error) ''http://example.com'') = [[]] \<and>
   map ret_err (Get DefaultClient (constant_world server_error) ''http://example.com'') = [Some ''500 Internal Server Error'']"
proof -
  have e: "ErrLog DefaultClient = []"
    by (simp add: DefaultClient_def)
  have g: "map ret_err (Get DefaultClient (constant_world server_error) ''http://example.com'') = [Some ''500 Internal Server Error'']"
    by code_simp
  then obtain x where x: "Get DefaultClient (constant_world server_error) ''http://example.com'' = [x]"
    by auto
  from New_keeps_no_log [of DefaultClient "constant_world server_error" "Get_params ''http://example.com''"] e x g
  show ?thesis
    by (simp add: Get_def Client_Get_def LogString_def)
qed

text \<open>
  After a caller has kept the log of failures in \<open>DefaultClient\<close> itself, a client made
  by \<open>New\<close> starts with those three entries, and so does the client of the
  self-constructing \<open>Get\<close>.
\<close>

theorem New_keeps_no_log_counterexample:
  "LogString (New used_DefaultClient) =
     ''1700000000 Get [GET] to http://example.com request-0 retry-0 error: 500 Internal Server Error'' @ [newline] @
     ''1700000001 Get [GET] to http://example.com request-0 retry-1 error: 500 Internal Server Error'' @ [newline] @
     ''1700000002 Get [GET] to http://example.com request-0 retry-2 error: 500 Internal Server Error'' @ [newline] \<and>
   map (\<lambda>x. length (ErrLog (client x))) (Get used_DefaultClient (constant_world server_error) ''http://example.com'') = [3]"
  by code_simp

end
